theory Spec2Isabelle
  imports Complex_Main
begin

section \<open>The per-tick simulation of the fighting game (src/src/App.tsx)\<close>

text \<open>
  The embedding follows \<^verbatim>\<open>updateGame\<close> and the callbacks it uses. JavaScript numbers
  are idealised: coordinates, velocities, health and energy are reals (every value the
  claims depend on is a multiple of 1/2 and exact in a double), the tick counters are
  integers. Particles carry no gameplay effect and draw on \<^verbatim>\<open>Math.random\<close>; they are
  left out. \<^verbatim>\<open>Date.now()\<close>, which only names a projectile, is the parameter \<open>now\<close>.
\<close>

subsection \<open>Data model\<close>

datatype facing_t = Left | Right

datatype fstate = Idle | Walking | Jumping | Attacking | Blocking | Hit | Special

datatype ptype = Fireball | Ice | Lightning

datatype phase = Menu | Playing | Paused | GameOver

text \<open>interface Fighter; the field \<^verbatim>\<open>id\<close> is \<open>fid\<close> (HOL has its own \<open>id\<close>).\<close>

record fighter =
  fid :: int
  x :: real
  y :: real
  width :: real
  height :: real
  velocityX :: real
  velocityY :: real
  health :: real
  maxHealth :: real
  energy :: real
  maxEnergy :: real
  facing :: facing_t
  state :: fstate
  color :: string
  name :: string
  isGrounded :: bool
  attackCooldown :: int
  specialCooldown :: int
  hitStun :: int
  blockStun :: int
  combo :: int
  animationFrame :: int
  animationTimer :: int

text \<open>interface Projectile, its fields prefixed with \<open>p_\<close>. It has no width and no height.\<close>

record projectile =
  p_id :: int
  p_x :: real
  p_y :: real
  p_velocityX :: real
  p_velocityY :: real
  p_damage :: real
  p_owner :: int
  p_type :: ptype
  p_color :: string
  p_animationFrame :: int

record scores_t =
  player1 :: int
  player2 :: int

text \<open>The React state of \<^verbatim>\<open>App\<close> that the simulation reads and writes.\<close>

record world =
  gameState :: phase
  winner :: "string option"
  fighters :: "fighter list"
  projectiles :: "projectile list"
  round_w :: int
  scores :: scores_t

definition CANVAS_WIDTH :: real where "CANVAS_WIDTH = 1200"
definition GROUND_Y :: real where "GROUND_Y = 500"
definition GRAVITY :: real where "GRAVITY = 0.8"
definition JUMP_FORCE :: real where "JUMP_FORCE = - 18"
definition MOVE_SPEED :: real where "MOVE_SPEED = 1.2"
definition ATTACK_DAMAGE :: real where "ATTACK_DAMAGE = 15"
definition SPECIAL_DAMAGE :: real where "SPECIAL_DAMAGE = 25"

subsection \<open>Round start\<close>

definition fighter1_init :: fighter where
  "fighter1_init = \<lparr> fid = 1, x = 200, y = GROUND_Y - 80, width = 60, height = 80,
     velocityX = 0, velocityY = 0, health = 100, maxHealth = 100, energy = 100,
     maxEnergy = 100, facing = Right, state = Idle, color = ''#3B82F6'',
     name = ''Sub-Zero'', isGrounded = True, attackCooldown = 0, specialCooldown = 0,
     hitStun = 0, blockStun = 0, combo = 0, animationFrame = 0, animationTimer = 0 \<rparr>"

definition fighter2_init :: fighter where
  "fighter2_init = \<lparr> fid = 2, x = CANVAS_WIDTH - 260, y = GROUND_Y - 80, width = 60,
     height = 80, velocityX = 0, velocityY = 0, health = 100, maxHealth = 100,
     energy = 100, maxEnergy = 100, facing = Left, state = Idle, color = ''#EF4444'',
     name = ''Scorpion'', isGrounded = True, attackCooldown = 0, specialCooldown = 0,
     hitStun = 0, blockStun = 0, combo = 0, animationFrame = 0, animationTimer = 0 \<rparr>"

definition initializeFighters :: "world \<Rightarrow> world" where
  "initializeFighters w =
     w\<lparr> fighters := [fighter1_init, fighter2_init], projectiles := [], winner := None \<rparr>"

definition startGame :: "world \<Rightarrow> world" where
  "startGame w = (initializeFighters w)\<lparr> gameState := Playing \<rparr>"

definition resetGame :: "world \<Rightarrow> world" where
  "resetGame w =
     startGame (w\<lparr> scores := \<lparr> player1 = 0, player2 = 0 \<rparr>, round_w := 1 \<rparr>)"

definition nextRound :: "world \<Rightarrow> world" where
  "nextRound w = startGame (w\<lparr> round_w := round_w w + 1 \<rparr>)"

text \<open>The Escape key, and the Resume button of the pause screen.\<close>

definition togglePause :: "world \<Rightarrow> world" where
  "togglePause w = w\<lparr> gameState := (if gameState w = Playing then Paused else Playing) \<rparr>"

definition resume :: "world \<Rightarrow> world" where
  "resume w = w\<lparr> gameState := Playing \<rparr>"

text \<open>The \<^verbatim>\<open>useState\<close> initial values.\<close>

definition initialWorld :: world where
  "initialWorld = \<lparr> gameState = Menu, winner = None, fighters = [], projectiles = [],
     round_w = 1, scores = \<lparr> player1 = 0, player2 = 0 \<rparr> \<rparr>"

subsection \<open>Rectangles and collision\<close>

text \<open>
  \<^verbatim>\<open>checkCollision(rect1: any, rect2: any)\<close> reads \<^verbatim>\<open>x\<close>, \<^verbatim>\<open>y\<close>, \<^verbatim>\<open>width\<close> and
  \<^verbatim>\<open>height\<close> of whatever object it is given. A property the object does not have reads
  as \<^verbatim>\<open>undefined\<close>; a sum with it is NaN and every comparison with NaN is false. A
  missing property is \<open>None\<close> here, and so is a NaN.
\<close>

record rect =
  r_x :: real
  r_y :: real
  r_width :: "real option"
  r_height :: "real option"

definition js_add :: "real \<Rightarrow> real option \<Rightarrow> real option" where
  "js_add a b = (case b of None \<Rightarrow> None | Some v \<Rightarrow> Some (a + v))"

definition js_lt :: "real option \<Rightarrow> real option \<Rightarrow> bool" where
  "js_lt a b = (case (a, b) of (Some u, Some v) \<Rightarrow> u < v | _ \<Rightarrow> False)"

definition js_gt :: "real option \<Rightarrow> real option \<Rightarrow> bool" where
  "js_gt a b = (case (a, b) of (Some u, Some v) \<Rightarrow> u > v | _ \<Rightarrow> False)"

definition checkCollision :: "rect \<Rightarrow> rect \<Rightarrow> bool" where
  "checkCollision rect1 rect2 =
     (js_lt (Some (r_x rect1)) (js_add (r_x rect2) (r_width rect2)) \<and>
      js_gt (js_add (r_x rect1) (r_width rect1)) (Some (r_x rect2)) \<and>
      js_lt (Some (r_y rect1)) (js_add (r_y rect2) (r_height rect2)) \<and>
      js_gt (js_add (r_y rect1) (r_height rect1)) (Some (r_y rect2)))"

text \<open>A fighter, an attack range and a projectile as \<^verbatim>\<open>checkCollision\<close> reads them.\<close>

definition fighterRect :: "fighter \<Rightarrow> rect" where
  "fighterRect f =
     \<lparr> r_x = x f, r_y = y f, r_width = Some (width f), r_height = Some (height f) \<rparr>"

definition attackRange :: "fighter \<Rightarrow> rect" where
  "attackRange f =
     \<lparr> r_x = (if facing f = Right then x f + width f else x f - 40), r_y = y f,
       r_width = Some 40, r_height = Some (height f) \<rparr>"

definition projectileRect :: "projectile \<Rightarrow> rect" where
  "projectileRect p = \<lparr> r_x = p_x p, r_y = p_y p, r_width = None, r_height = None \<rparr>"

subsection \<open>Projectile creation\<close>

definition createProjectile :: "int \<Rightarrow> fighter \<Rightarrow> ptype \<Rightarrow> projectile" where
  "createProjectile now f t =
     \<lparr> p_id = now,
       p_x = (if facing f = Right then x f + width f else x f),
       p_y = y f + height f / 2,
       p_velocityX = (if facing f = Right then 8 else - 8),
       p_velocityY = 0,
       p_damage = SPECIAL_DAMAGE,
       p_owner = fid f,
       p_type = t,
       p_color = (if t = Fireball then ''#FF6B35'' else if t = Ice then ''#00D4FF''
                  else ''#FFD700''),
       p_animationFrame = 0 \<rparr>"

subsection \<open>The per-fighter update (the \<^verbatim>\<open>map\<close> callback of \<^verbatim>\<open>updateGame\<close>)\<close>

definition tickAnimation :: "fighter \<Rightarrow> fighter" where
  "tickAnimation f =
     (let g = f\<lparr> animationTimer := animationTimer f + 1 \<rparr>
      in if animationTimer g mod 8 = 0 then g\<lparr> animationFrame := animationFrame g + 1 \<rparr>
         else g)"

definition tickTimers :: "fighter \<Rightarrow> fighter" where
  "tickTimers f =
     f\<lparr> attackCooldown := (if attackCooldown f > 0 then attackCooldown f - 1
                             else attackCooldown f),
        specialCooldown := (if specialCooldown f > 0 then specialCooldown f - 1
                             else specialCooldown f),
        hitStun := (if hitStun f > 0 then hitStun f - 1 else hitStun f),
        blockStun := (if blockStun f > 0 then blockStun f - 1 else blockStun f) \<rparr>"

definition regenEnergy :: "fighter \<Rightarrow> fighter" where
  "regenEnergy f =
     (if energy f < maxEnergy f then f\<lparr> energy := min (maxEnergy f) (energy f + 0.5) \<rparr>
      else f)"

definition resetHit :: "fighter \<Rightarrow> fighter" where
  "resetHit f =
     (if hitStun f = 0 \<and> blockStun f = 0 \<and> state f = Hit then f\<lparr> state := Idle \<rparr>
      else f)"

text \<open>
  The two control blocks of the source differ in their key names and in the projectile
  type only; \<open>controlsOf\<close> picks the names by \<^verbatim>\<open>newFighter.id === 1\<close>.
\<close>

record controls =
  leftKey :: string
  rightKey :: string
  jumpKey :: string
  attackKey :: string
  specialKey :: string
  blockKey :: string
  specialType :: ptype

definition controlsOf :: "fighter \<Rightarrow> controls" where
  "controlsOf f =
     (if fid f = 1
      then \<lparr> leftKey = ''q'', rightKey = ''d'', jumpKey = ''z'', attackKey = ''f'',
             specialKey = ''g'', blockKey = ''s'', specialType = Ice \<rparr>
      else \<lparr> leftKey = ''arrowleft'', rightKey = ''arrowright'', jumpKey = ''arrowup'',
             attackKey = ''n'', specialKey = ''m'', blockKey = ''arrowdown'',
             specialType = Fireball \<rparr>)"

definition friction :: "fighter \<Rightarrow> fighter" where
  "friction f =
     (let g = f\<lparr> velocityX := velocityX f * 0.8 \<rparr>
      in if \<bar>velocityX g\<bar> < 0.1
         then (let h = g\<lparr> velocityX := 0 \<rparr>
               in if state h = Walking then h\<lparr> state := Idle \<rparr> else h)
         else g)"

definition moveStep :: "string set \<Rightarrow> fighter \<Rightarrow> fighter" where
  "moveStep keys f =
     (if leftKey (controlsOf f) \<in> keys \<and> x f > 0
      then f\<lparr> velocityX := - MOVE_SPEED, facing := Left, state := Walking \<rparr>
      else if rightKey (controlsOf f) \<in> keys \<and> x f < CANVAS_WIDTH - width f
      then f\<lparr> velocityX := MOVE_SPEED, facing := Right, state := Walking \<rparr>
      else friction f)"

definition jumpStep :: "string set \<Rightarrow> fighter \<Rightarrow> fighter" where
  "jumpStep keys f =
     (if jumpKey (controlsOf f) \<in> keys \<and> isGrounded f
      then f\<lparr> velocityY := JUMP_FORCE, isGrounded := False, state := Jumping \<rparr>
      else f)"

definition attackStep :: "string set \<Rightarrow> fighter \<Rightarrow> fighter" where
  "attackStep keys f =
     (if attackKey (controlsOf f) \<in> keys \<and> attackCooldown f = 0
      then f\<lparr> state := Attacking, attackCooldown := 30 \<rparr>
      else f)"

definition specialStep :: "string set \<Rightarrow> int \<Rightarrow> fighter \<Rightarrow> fighter \<times> projectile list" where
  "specialStep keys now f =
     (if specialKey (controlsOf f) \<in> keys \<and> energy f \<ge> 30 \<and> specialCooldown f = 0
      then (let g = f\<lparr> state := Special, energy := energy f - 30, specialCooldown := 60 \<rparr>
            in (g, [createProjectile now g (specialType (controlsOf g))]))
      else (f, []))"

definition blockStep :: "string set \<Rightarrow> fighter \<Rightarrow> fighter" where
  "blockStep keys f =
     (if blockKey (controlsOf f) \<in> keys then f\<lparr> state := Blocking \<rparr> else f)"

definition handleInput :: "string set \<Rightarrow> int \<Rightarrow> fighter \<Rightarrow> fighter \<times> projectile list" where
  "handleInput keys now f =
     (let (g, spawned) = specialStep keys now (attackStep keys (jumpStep keys (moveStep keys f)))
      in (blockStep keys g, spawned))"

definition applyPhysics :: "fighter \<Rightarrow> fighter" where
  "applyPhysics f =
     (let f1 = (if \<not> isGrounded f then f\<lparr> velocityY := velocityY f + GRAVITY \<rparr> else f);
          f2 = f1\<lparr> x := x f1 + velocityX f1, y := y f1 + velocityY f1 \<rparr>;
          f3 = (if y f2 \<ge> GROUND_Y - height f2
                then (let g = f2\<lparr> y := GROUND_Y - height f2, velocityY := 0,
                                  isGrounded := True \<rparr>
                      in if state g = Jumping then g\<lparr> state := Idle \<rparr> else g)
                else f2)
      in f3\<lparr> x := max 0 (min (CANVAS_WIDTH - width f3) (x f3)) \<rparr>)"

text \<open>Everything before the input gate: animation, timers, energy, the end of a stun.\<close>

definition preInput :: "fighter \<Rightarrow> fighter" where
  "preInput f = resetHit (regenEnergy (tickTimers (tickAnimation f)))"

definition updateFighter :: "string set \<Rightarrow> int \<Rightarrow> fighter \<Rightarrow> fighter \<times> projectile list" where
  "updateFighter keys now f =
     (let g = preInput f
      in if hitStun g = 0 \<and> blockStun g = 0
         then (let (h, spawned) = handleInput keys now g in (applyPhysics h, spawned))
         else (applyPhysics g, []))"

fun updateFighters :: "string set \<Rightarrow> int \<Rightarrow> fighter list \<Rightarrow> fighter list \<times> projectile list" where
  "updateFighters keys now [] = ([], [])"
| "updateFighters keys now (f # fs) =
     (let (g, spawned) = updateFighter keys now f;
          (gs, more) = updateFighters keys now fs
      in (g # gs, spawned @ more))"

subsection \<open>Melee resolution\<close>

text \<open>
  \<^verbatim>\<open>handleAttack\<close> mutates the two fighter objects and calls \<^verbatim>\<open>setWinner\<close>,
  \<^verbatim>\<open>setGameState\<close> and \<^verbatim>\<open>setScores\<close>; here it returns the two fighters and the world.
\<close>

definition facingOpposed :: "fighter \<Rightarrow> fighter \<Rightarrow> bool" where
  "facingOpposed attacker defender =
     ((facing attacker = Right \<and> facing defender = Left) \<or>
      (facing attacker = Left \<and> facing defender = Right))"

definition handleAttack :: "fighter \<Rightarrow> fighter \<Rightarrow> world \<Rightarrow> fighter \<times> fighter \<times> world" where
  "handleAttack attacker defender w =
     (if state defender = Blocking \<and> facingOpposed attacker defender
      then (attacker,
            defender\<lparr> blockStun := 15, energy := max 0 (energy defender - 5) \<rparr>,
            w)
      else (let d = defender\<lparr> health := max 0 (health defender - ATTACK_DAMAGE),
                               hitStun := 20, state := Hit,
                               velocityX := (if facing attacker = Right then 3 else - 3) \<rparr>;
                a = attacker\<lparr> combo := combo attacker + 1 \<rparr>
            in (a, d,
                if health d \<le> 0
                then w\<lparr> winner := Some (name a), gameState := GameOver,
                        scores := (if fid a = 1
                                   then (scores w)\<lparr> player1 := player1 (scores w) + 1 \<rparr>
                                   else (scores w)\<lparr> player2 := player2 (scores w) + 1 \<rparr>) \<rparr>
                else w)))"

text \<open>The test that guards each call of \<^verbatim>\<open>handleAttack\<close>.\<close>

definition attackLands :: "fighter \<Rightarrow> fighter \<Rightarrow> bool" where
  "attackLands attacker defender =
     (state attacker = Attacking \<and> attackCooldown attacker = 29 \<and>
      checkCollision (attackRange attacker) (fighterRect defender))"

text \<open>
  One of the two blocks under \<^verbatim>\<open>newFighters.length === 2\<close>: the test, and the call of
  \<^verbatim>\<open>handleAttack\<close> when it holds. Beside the two fighters and the world it returns the
  call it made, as the position \<open>i\<close> of the attacker in the array.
\<close>

definition exchange :: "int \<Rightarrow> fighter \<Rightarrow> fighter \<Rightarrow> world \<Rightarrow> fighter \<times> fighter \<times> world \<times> int list" where
  "exchange i attacker defender w =
     (if attackLands attacker defender
      then (let (a, d, v) = handleAttack attacker defender w in (a, d, v, [i]))
      else (attacker, defender, w, []))"

text \<open>
  The melee resolution: the first fighter of the array attacks the second, then the
  second (as the first call left it) attacks the first. The result lists the calls of
  \<^verbatim>\<open>handleAttack\<close> in order.
\<close>

definition meleeStep :: "fighter list \<Rightarrow> world \<Rightarrow> fighter list \<times> world \<times> int list" where
  "meleeStep fs w =
     (case fs of
        [fighter1, fighter2] \<Rightarrow>
          (let (a1, d2, w1, c1) = exchange 1 fighter1 fighter2 w;
               (a2, d1, w2, c2) = exchange 2 d2 a1 w1
           in ([d1, a2], w2, c1 @ c2))
      | _ \<Rightarrow> (fs, w, []))"

subsection \<open>Projectiles\<close>

text \<open>
  The body of the branch taken when a projectile collides with its target: the effect
  on the target fighter (the projectile itself is dropped by the caller).
\<close>

definition projectileHit :: "projectile \<Rightarrow> fighter \<Rightarrow> fighter" where
  "projectileHit p target =
     (if state target \<noteq> Blocking
      then target\<lparr> health := max 0 (health target - p_damage p), hitStun := 25,
                   state := Hit \<rparr>
      else target)"

text \<open>\<^verbatim>\<open>fighters.find(f => f.id !== projectile.owner)\<close>, as an index.\<close>

fun findTarget :: "int \<Rightarrow> fighter list \<Rightarrow> nat \<Rightarrow> nat option" where
  "findTarget owner [] i = None"
| "findTarget owner (f # fs) i = (if fid f \<noteq> owner then Some i else findTarget owner fs (Suc i))"

text \<open>
  The \<^verbatim>\<open>filter\<close> callback of the projectile update: the projectile moves, then is
  tested against its target. \<open>fs\<close> is the array \<^verbatim>\<open>fighters\<close> of the closure, whose
  objects the callback mutates; the result is that array, and the projectile when kept.
\<close>

definition stepProjectile :: "fighter list \<Rightarrow> projectile \<Rightarrow> fighter list \<times> projectile option" where
  "stepProjectile fs p =
     (let q = p\<lparr> p_x := p_x p + p_velocityX p, p_y := p_y p + p_velocityY p,
                 p_animationFrame := p_animationFrame p + 1 \<rparr>;
          keep = (p_x q > - 50 \<and> p_x q < CANVAS_WIDTH + 50)
      in case findTarget (p_owner q) fs 0 of
           None \<Rightarrow> (fs, if keep then Some q else None)
         | Some i \<Rightarrow>
             if checkCollision (projectileRect q) (fighterRect (fs ! i))
             then (fs[i := projectileHit q (fs ! i)], None)
             else (fs, if keep then Some q else None))"

fun updateProjectiles :: "fighter list \<Rightarrow> projectile list \<Rightarrow> fighter list \<times> projectile list" where
  "updateProjectiles fs [] = (fs, [])"
| "updateProjectiles fs (p # ps) =
     (let (fs1, r) = stepProjectile fs p;
          (fs2, rs) = updateProjectiles fs1 ps
      in (fs2, (case r of None \<Rightarrow> rs | Some q \<Rightarrow> q # rs)))"

subsection \<open>The tick\<close>

text \<open>
  \<^verbatim>\<open>updateGame\<close>: the fighter update with the melee exchange, then the projectile
  update. The updates of the projectile collection apply in the order they are queued:
  the filter of this tick first, then the appends that \<^verbatim>\<open>createProjectile\<close> makes while
  the fighter update runs. A projectile spawned on a tick is therefore not moved on
  that tick. The projectile update works on the array \<^verbatim>\<open>fighters\<close> of the closure, that
  is on the fighters as they were before the tick, while the new state holds the copies
  \<^verbatim>\<open>{ ...fighter }\<close> made by the fighter update; what it does to the old objects is not
  part of the new state. \<open>tick\<close> also returns the calls of \<^verbatim>\<open>handleAttack\<close>.
\<close>

definition tick :: "string set \<Rightarrow> int \<Rightarrow> world \<Rightarrow> world \<times> int list" where
  "tick keys now w =
     (if gameState w \<noteq> Playing then (w, [])
      else (let (newFighters, spawned) = updateFighters keys now (fighters w);
                (fs, w1, calls) = meleeStep newFighters w;
                (stale, live) = updateProjectiles (fighters w) (projectiles w)
            in (w1\<lparr> fighters := fs, projectiles := live @ spawned \<rparr>, calls)))"

definition updateGame :: "string set \<Rightarrow> int \<Rightarrow> world \<Rightarrow> world" where
  "updateGame keys now w = fst (tick keys now w)"

subsection \<open>Runs of ticks\<close>

text \<open>
  A run feeds the tick one input snapshot (and clock value) after the other. \<open>callsBy i\<close>
  counts the calls of \<^verbatim>\<open>handleAttack\<close> along a run whose attacker stands at position
  \<open>i\<close> of the array.
\<close>

fun callsBy :: "int \<Rightarrow> (string set \<times> int) list \<Rightarrow> world \<Rightarrow> nat" where
  "callsBy i [] w = 0"
| "callsBy i (k # ks) w =
     count_list (snd (tick (fst k) (snd k) w)) i + callsBy i ks (updateGame (fst k) (snd k) w)"

text \<open>The fighter at position 1 or 2 of the array, when the array has two elements.\<close>

definition fighterAt :: "int \<Rightarrow> world \<Rightarrow> fighter option" where
  "fighterAt i w =
     (case fighters w of
        [f1, f2] \<Rightarrow> (if i = 1 then Some f1 else if i = 2 then Some f2 else None)
      | _ \<Rightarrow> None)"

text \<open>
  A tick on which the attack key of a fighter is processed with \<^verbatim>\<open>attackCooldown === 0\<close>:
  the game is running, the fighter is past the input gate, and the test of the attack
  branch holds where the source evaluates it (after the move and jump blocks).
\<close>

definition activates :: "string set \<Rightarrow> fighter \<Rightarrow> bool" where
  "activates keys f =
     (hitStun (preInput f) = 0 \<and> blockStun (preInput f) = 0 \<and>
      attackKey (controlsOf f) \<in> keys \<and> attackCooldown (preInput f) = 0)"

subsection \<open>Reachable worlds\<close>

definition inBounds :: "fighter \<Rightarrow> bool" where
  "inBounds f =
     (0 \<le> health f \<and> health f \<le> maxHealth f \<and> 0 \<le> energy f \<and> energy f \<le> maxEnergy f)"

text \<open>
  Every way the component changes its state: the initial state, the buttons (start,
  next round, reset, resume), the Escape key, and the tick under any input.
\<close>

inductive reachable :: "world \<Rightarrow> bool" where
  r_init: "reachable initialWorld"
| r_start: "reachable w \<Longrightarrow> reachable (startGame w)"
| r_next: "reachable w \<Longrightarrow> reachable (nextRound w)"
| r_reset: "reachable w \<Longrightarrow> reachable (resetGame w)"
| r_pause: "reachable w \<Longrightarrow> reachable (togglePause w)"
| r_resume: "reachable w \<Longrightarrow> reachable (resume w)"
| r_tick: "reachable w \<Longrightarrow> reachable (updateGame keys now w)"

section \<open>Properties\<close>

subsection \<open>What each step of the per-fighter update leaves alone\<close>

lemma tickAnimation_fields [simp]:
  "fid (tickAnimation f) = fid f" "x (tickAnimation f) = x f" "y (tickAnimation f) = y f"
  "width (tickAnimation f) = width f" "height (tickAnimation f) = height f"
  "velocityX (tickAnimation f) = velocityX f" "velocityY (tickAnimation f) = velocityY f"
  "health (tickAnimation f) = health f" "maxHealth (tickAnimation f) = maxHealth f"
  "energy (tickAnimation f) = energy f" "maxEnergy (tickAnimation f) = maxEnergy f"
  "facing (tickAnimation f) = facing f" "state (tickAnimation f) = state f"
  "name (tickAnimation f) = name f" "isGrounded (tickAnimation f) = isGrounded f"
  "attackCooldown (tickAnimation f) = attackCooldown f"
  "specialCooldown (tickAnimation f) = specialCooldown f"
  "hitStun (tickAnimation f) = hitStun f" "blockStun (tickAnimation f) = blockStun f"
  "combo (tickAnimation f) = combo f"
  by (simp_all add: tickAnimation_def Let_def)

lemma tickTimers_fields [simp]:
  "fid (tickTimers f) = fid f" "x (tickTimers f) = x f" "y (tickTimers f) = y f"
  "width (tickTimers f) = width f" "height (tickTimers f) = height f"
  "velocityX (tickTimers f) = velocityX f" "velocityY (tickTimers f) = velocityY f"
  "health (tickTimers f) = health f" "maxHealth (tickTimers f) = maxHealth f"
  "energy (tickTimers f) = energy f" "maxEnergy (tickTimers f) = maxEnergy f"
  "facing (tickTimers f) = facing f" "state (tickTimers f) = state f"
  "name (tickTimers f) = name f" "isGrounded (tickTimers f) = isGrounded f"
  "combo (tickTimers f) = combo f"
  "attackCooldown (tickTimers f) =
     (if attackCooldown f > 0 then attackCooldown f - 1 else attackCooldown f)"
  "specialCooldown (tickTimers f) =
     (if specialCooldown f > 0 then specialCooldown f - 1 else specialCooldown f)"
  "hitStun (tickTimers f) = (if hitStun f > 0 then hitStun f - 1 else hitStun f)"
  "blockStun (tickTimers f) = (if blockStun f > 0 then blockStun f - 1 else blockStun f)"
  by (simp_all add: tickTimers_def)

lemma regenEnergy_fields [simp]:
  "fid (regenEnergy f) = fid f" "x (regenEnergy f) = x f" "y (regenEnergy f) = y f"
  "width (regenEnergy f) = width f" "height (regenEnergy f) = height f"
  "velocityX (regenEnergy f) = velocityX f" "velocityY (regenEnergy f) = velocityY f"
  "health (regenEnergy f) = health f" "maxHealth (regenEnergy f) = maxHealth f"
  "maxEnergy (regenEnergy f) = maxEnergy f"
  "facing (regenEnergy f) = facing f" "state (regenEnergy f) = state f"
  "name (regenEnergy f) = name f" "isGrounded (regenEnergy f) = isGrounded f"
  "attackCooldown (regenEnergy f) = attackCooldown f"
  "specialCooldown (regenEnergy f) = specialCooldown f"
  "hitStun (regenEnergy f) = hitStun f" "blockStun (regenEnergy f) = blockStun f"
  "combo (regenEnergy f) = combo f"
  "energy (regenEnergy f) =
     (if energy f < maxEnergy f then min (maxEnergy f) (energy f + 0.5) else energy f)"
  by (simp_all add: regenEnergy_def)

lemma resetHit_fields [simp]:
  "fid (resetHit f) = fid f" "x (resetHit f) = x f" "y (resetHit f) = y f"
  "width (resetHit f) = width f" "height (resetHit f) = height f"
  "velocityX (resetHit f) = velocityX f" "velocityY (resetHit f) = velocityY f"
  "health (resetHit f) = health f" "maxHealth (resetHit f) = maxHealth f"
  "energy (resetHit f) = energy f" "maxEnergy (resetHit f) = maxEnergy f"
  "facing (resetHit f) = facing f"
  "name (resetHit f) = name f" "isGrounded (resetHit f) = isGrounded f"
  "attackCooldown (resetHit f) = attackCooldown f"
  "specialCooldown (resetHit f) = specialCooldown f"
  "hitStun (resetHit f) = hitStun f" "blockStun (resetHit f) = blockStun f"
  "combo (resetHit f) = combo f"
  by (simp_all add: resetHit_def)

lemma preInput_fields [simp]:
  "fid (preInput f) = fid f" "x (preInput f) = x f" "y (preInput f) = y f"
  "width (preInput f) = width f" "height (preInput f) = height f"
  "velocityX (preInput f) = velocityX f" "velocityY (preInput f) = velocityY f"
  "health (preInput f) = health f" "maxHealth (preInput f) = maxHealth f"
  "maxEnergy (preInput f) = maxEnergy f"
  "facing (preInput f) = facing f"
  "name (preInput f) = name f" "isGrounded (preInput f) = isGrounded f"
  "combo (preInput f) = combo f"
  "energy (preInput f) =
     (if energy f < maxEnergy f then min (maxEnergy f) (energy f + 0.5) else energy f)"
  "attackCooldown (preInput f) =
     (if attackCooldown f > 0 then attackCooldown f - 1 else attackCooldown f)"
  "specialCooldown (preInput f) =
     (if specialCooldown f > 0 then specialCooldown f - 1 else specialCooldown f)"
  "hitStun (preInput f) = (if hitStun f > 0 then hitStun f - 1 else hitStun f)"
  "blockStun (preInput f) = (if blockStun f > 0 then blockStun f - 1 else blockStun f)"
  by (simp_all add: preInput_def)

lemma controlsOf_cong [simp]:
  "controlsOf (f\<lparr> state := s \<rparr>) = controlsOf f"
  "controlsOf (f\<lparr> velocityX := v \<rparr>) = controlsOf f"
  "controlsOf (f\<lparr> velocityY := v \<rparr>) = controlsOf f"
  "controlsOf (f\<lparr> facing := d \<rparr>) = controlsOf f"
  "controlsOf (f\<lparr> isGrounded := b \<rparr>) = controlsOf f"
  "controlsOf (f\<lparr> attackCooldown := c \<rparr>) = controlsOf f"
  "controlsOf (f\<lparr> specialCooldown := c \<rparr>) = controlsOf f"
  "controlsOf (f\<lparr> energy := e \<rparr>) = controlsOf f"
  by (simp_all add: controlsOf_def)

lemma friction_fields [simp]:
  "fid (friction f) = fid f" "x (friction f) = x f" "y (friction f) = y f"
  "width (friction f) = width f" "height (friction f) = height f"
  "velocityY (friction f) = velocityY f"
  "health (friction f) = health f" "maxHealth (friction f) = maxHealth f"
  "energy (friction f) = energy f" "maxEnergy (friction f) = maxEnergy f"
  "facing (friction f) = facing f"
  "name (friction f) = name f" "isGrounded (friction f) = isGrounded f"
  "attackCooldown (friction f) = attackCooldown f"
  "specialCooldown (friction f) = specialCooldown f"
  "hitStun (friction f) = hitStun f" "blockStun (friction f) = blockStun f"
  "combo (friction f) = combo f"
  by (simp_all add: friction_def Let_def)

lemma moveStep_fields [simp]:
  "fid (moveStep keys f) = fid f" "x (moveStep keys f) = x f" "y (moveStep keys f) = y f"
  "width (moveStep keys f) = width f" "height (moveStep keys f) = height f"
  "velocityY (moveStep keys f) = velocityY f"
  "health (moveStep keys f) = health f" "maxHealth (moveStep keys f) = maxHealth f"
  "energy (moveStep keys f) = energy f" "maxEnergy (moveStep keys f) = maxEnergy f"
  "name (moveStep keys f) = name f" "isGrounded (moveStep keys f) = isGrounded f"
  "attackCooldown (moveStep keys f) = attackCooldown f"
  "specialCooldown (moveStep keys f) = specialCooldown f"
  "hitStun (moveStep keys f) = hitStun f" "blockStun (moveStep keys f) = blockStun f"
  "combo (moveStep keys f) = combo f"
  by (simp_all add: moveStep_def)

lemma jumpStep_fields [simp]:
  "fid (jumpStep keys f) = fid f" "x (jumpStep keys f) = x f" "y (jumpStep keys f) = y f"
  "width (jumpStep keys f) = width f" "height (jumpStep keys f) = height f"
  "velocityX (jumpStep keys f) = velocityX f"
  "health (jumpStep keys f) = health f" "maxHealth (jumpStep keys f) = maxHealth f"
  "energy (jumpStep keys f) = energy f" "maxEnergy (jumpStep keys f) = maxEnergy f"
  "facing (jumpStep keys f) = facing f" "name (jumpStep keys f) = name f"
  "attackCooldown (jumpStep keys f) = attackCooldown f"
  "specialCooldown (jumpStep keys f) = specialCooldown f"
  "hitStun (jumpStep keys f) = hitStun f" "blockStun (jumpStep keys f) = blockStun f"
  "combo (jumpStep keys f) = combo f"
  by (simp_all add: jumpStep_def)

lemma attackStep_fields [simp]:
  "fid (attackStep keys f) = fid f" "x (attackStep keys f) = x f" "y (attackStep keys f) = y f"
  "width (attackStep keys f) = width f" "height (attackStep keys f) = height f"
  "velocityX (attackStep keys f) = velocityX f" "velocityY (attackStep keys f) = velocityY f"
  "health (attackStep keys f) = health f" "maxHealth (attackStep keys f) = maxHealth f"
  "energy (attackStep keys f) = energy f" "maxEnergy (attackStep keys f) = maxEnergy f"
  "facing (attackStep keys f) = facing f" "name (attackStep keys f) = name f"
  "isGrounded (attackStep keys f) = isGrounded f"
  "specialCooldown (attackStep keys f) = specialCooldown f"
  "hitStun (attackStep keys f) = hitStun f" "blockStun (attackStep keys f) = blockStun f"
  "combo (attackStep keys f) = combo f"
  by (simp_all add: attackStep_def)

lemma specialStep_fields [simp]:
  "fid (fst (specialStep keys now f)) = fid f" "x (fst (specialStep keys now f)) = x f"
  "y (fst (specialStep keys now f)) = y f"
  "width (fst (specialStep keys now f)) = width f"
  "height (fst (specialStep keys now f)) = height f"
  "velocityX (fst (specialStep keys now f)) = velocityX f"
  "velocityY (fst (specialStep keys now f)) = velocityY f"
  "health (fst (specialStep keys now f)) = health f"
  "maxHealth (fst (specialStep keys now f)) = maxHealth f"
  "maxEnergy (fst (specialStep keys now f)) = maxEnergy f"
  "facing (fst (specialStep keys now f)) = facing f"
  "name (fst (specialStep keys now f)) = name f"
  "isGrounded (fst (specialStep keys now f)) = isGrounded f"
  "attackCooldown (fst (specialStep keys now f)) = attackCooldown f"
  "hitStun (fst (specialStep keys now f)) = hitStun f"
  "blockStun (fst (specialStep keys now f)) = blockStun f"
  "combo (fst (specialStep keys now f)) = combo f"
  by (simp_all add: specialStep_def Let_def)

lemma blockStep_fields [simp]:
  "fid (blockStep keys f) = fid f" "x (blockStep keys f) = x f" "y (blockStep keys f) = y f"
  "width (blockStep keys f) = width f" "height (blockStep keys f) = height f"
  "velocityX (blockStep keys f) = velocityX f" "velocityY (blockStep keys f) = velocityY f"
  "health (blockStep keys f) = health f" "maxHealth (blockStep keys f) = maxHealth f"
  "energy (blockStep keys f) = energy f" "maxEnergy (blockStep keys f) = maxEnergy f"
  "facing (blockStep keys f) = facing f" "name (blockStep keys f) = name f"
  "isGrounded (blockStep keys f) = isGrounded f"
  "attackCooldown (blockStep keys f) = attackCooldown f"
  "specialCooldown (blockStep keys f) = specialCooldown f"
  "hitStun (blockStep keys f) = hitStun f" "blockStun (blockStep keys f) = blockStun f"
  "combo (blockStep keys f) = combo f"
  by (simp_all add: blockStep_def)

lemma applyPhysics_fields [simp]:
  "fid (applyPhysics f) = fid f"
  "width (applyPhysics f) = width f" "height (applyPhysics f) = height f"
  "velocityX (applyPhysics f) = velocityX f"
  "health (applyPhysics f) = health f" "maxHealth (applyPhysics f) = maxHealth f"
  "energy (applyPhysics f) = energy f" "maxEnergy (applyPhysics f) = maxEnergy f"
  "facing (applyPhysics f) = facing f" "name (applyPhysics f) = name f"
  "attackCooldown (applyPhysics f) = attackCooldown f"
  "specialCooldown (applyPhysics f) = specialCooldown f"
  "hitStun (applyPhysics f) = hitStun f" "blockStun (applyPhysics f) = blockStun f"
  "combo (applyPhysics f) = combo f"
  by (simp_all add: applyPhysics_def Let_def)

lemma applyPhysics_state:
  "state (applyPhysics f) \<noteq> state f \<Longrightarrow> state f = Jumping \<and> state (applyPhysics f) = Idle"
  by (simp add: applyPhysics_def Let_def split: if_splits)

lemma handleInput_fst:
  "fst (handleInput keys now f) =
     blockStep keys (fst (specialStep keys now (attackStep keys (jumpStep keys (moveStep keys f)))))"
  by (simp add: handleInput_def split: prod.splits)

lemma handleInput_snd:
  "snd (handleInput keys now f) =
     snd (specialStep keys now (attackStep keys (jumpStep keys (moveStep keys f))))"
  by (simp add: handleInput_def split: prod.splits)

lemma updateFighter_fst:
  "fst (updateFighter keys now f) =
     applyPhysics (if hitStun (preInput f) = 0 \<and> blockStun (preInput f) = 0
                   then fst (handleInput keys now (preInput f)) else preInput f)"
  by (simp add: updateFighter_def Let_def split: prod.splits)

lemma updateFighter_snd:
  "snd (updateFighter keys now f) =
     (if hitStun (preInput f) = 0 \<and> blockStun (preInput f) = 0
      then snd (handleInput keys now (preInput f)) else [])"
  by (simp add: updateFighter_def Let_def split: prod.splits)

subsection \<open>What each step of the input block changes\<close>

lemma controlsOf_fid: "fid g = fid f \<Longrightarrow> controlsOf g = controlsOf f"
  by (simp add: controlsOf_def)

lemma controlsOf_steps [simp]:
  "controlsOf (preInput f) = controlsOf f"
  "controlsOf (friction f) = controlsOf f"
  "controlsOf (moveStep keys f) = controlsOf f"
  "controlsOf (jumpStep keys f) = controlsOf f"
  "controlsOf (attackStep keys f) = controlsOf f"
  "controlsOf (fst (specialStep keys now f)) = controlsOf f"
  "controlsOf (blockStep keys f) = controlsOf f"
  "controlsOf (applyPhysics f) = controlsOf f"
  by (rule controlsOf_fid, simp)+

lemma friction_velocityX:
  "velocityX (friction f) = (if \<bar>velocityX f * 0.8\<bar> < 0.1 then 0 else velocityX f * 0.8)"
  by (simp add: friction_def Let_def)

lemma friction_state:
  "state (friction f) =
     (if \<bar>velocityX f * 0.8\<bar> < 0.1 \<and> state f = Walking then Idle else state f)"
  by (simp add: friction_def Let_def)

lemma attackStep_changes:
  "attackCooldown (attackStep keys f) =
     (if attackKey (controlsOf f) \<in> keys \<and> attackCooldown f = 0 then 30 else attackCooldown f)"
  "state (attackStep keys f) =
     (if attackKey (controlsOf f) \<in> keys \<and> attackCooldown f = 0 then Attacking else state f)"
  by (simp_all add: attackStep_def)

lemma specialStep_changes:
  "energy (fst (specialStep keys now f)) =
     (if specialKey (controlsOf f) \<in> keys \<and> energy f \<ge> 30 \<and> specialCooldown f = 0
      then energy f - 30 else energy f)"
  "specialCooldown (fst (specialStep keys now f)) =
     (if specialKey (controlsOf f) \<in> keys \<and> energy f \<ge> 30 \<and> specialCooldown f = 0
      then 60 else specialCooldown f)"
  "state (fst (specialStep keys now f)) =
     (if specialKey (controlsOf f) \<in> keys \<and> energy f \<ge> 30 \<and> specialCooldown f = 0
      then Special else state f)"
  "snd (specialStep keys now f) =
     (if specialKey (controlsOf f) \<in> keys \<and> energy f \<ge> 30 \<and> specialCooldown f = 0
      then [createProjectile now
              (f\<lparr> state := Special, energy := energy f - 30, specialCooldown := 60 \<rparr>)
              (specialType (controlsOf f))]
      else [])"
  by (simp_all add: specialStep_def Let_def)

lemma blockStep_state:
  "state (blockStep keys f) = (if blockKey (controlsOf f) \<in> keys then Blocking else state f)"
  by (simp add: blockStep_def)

lemma controls_fighter1 [simp]:
  "fid f = 1 \<Longrightarrow> controlsOf f =
     \<lparr> leftKey = ''q'', rightKey = ''d'', jumpKey = ''z'', attackKey = ''f'',
       specialKey = ''g'', blockKey = ''s'', specialType = Ice \<rparr>"
  by (simp add: controlsOf_def)

lemma controls_fighter2 [simp]:
  "fid f \<noteq> 1 \<Longrightarrow> controlsOf f =
     \<lparr> leftKey = ''arrowleft'', rightKey = ''arrowright'', jumpKey = ''arrowup'',
       attackKey = ''n'', specialKey = ''m'', blockKey = ''arrowdown'',
       specialType = Fireball \<rparr>"
  by (simp add: controlsOf_def)

subsection \<open>Energy and the special move\<close>

lemma updateFighter_energy_no_special:
  assumes "energy (preInput f) < 30"
  shows "energy (fst (updateFighter keys now f)) = energy (preInput f)"
    and "snd (updateFighter keys now f) = []"
  using assms
  by (simp_all add: updateFighter_fst updateFighter_snd handleInput_fst handleInput_snd
      specialStep_def del: preInput_fields)

text \<open>
  C8 (as amended). A fighter whose energy is below 29.5 at the start of a tick, whatever
  keys are held (the special key included), spawns no projectile on that tick and has
  nothing deducted; but the regeneration step of the tick still applies, so after the
  per-fighter update the energy is \<open>min maxEnergy (energy + 0.5)\<close> when it was below
  \<open>maxEnergy\<close> (20.5 for 20 of 100), and unchanged otherwise.
\<close>

theorem C8_low_energy_no_projectile:
  assumes "energy f < 29.5"
  shows "snd (updateFighter keys now f) = [] \<and>
         energy (fst (updateFighter keys now f)) =
           (if energy f < maxEnergy f then min (maxEnergy f) (energy f + 0.5) else energy f)"
proof -
  have low: "energy (preInput f) < 30"
    using assms by (auto simp: min_def)
  show ?thesis
    using updateFighter_energy_no_special [OF low, of keys now] by simp
qed

theorem C8_witness:
  "snd (updateFighter {''g''} 7 (fighter1_init\<lparr> energy := 20 \<rparr>)) = [] \<and>
   energy (fst (updateFighter {''g''} 7 (fighter1_init\<lparr> energy := 20 \<rparr>))) = 20.5"
  using C8_low_energy_no_projectile [of "fighter1_init\<lparr> energy := 20 \<rparr>" "{''g''}" 7]
  by (simp add: fighter1_init_def)

text \<open>
  The claim as stated fails: with energy 20 the fighter ends the tick with 20.5, and
  with energy 29.5 (below 30) the regeneration lifts it to 30 before the special key is
  read, so the projectile is spawned and the 30 are deducted.
\<close>

theorem C8_counterexample:
  "energy (fst (updateFighter {''g''} 7 (fighter1_init\<lparr> energy := 20 \<rparr>))) \<noteq> 20 \<and>
   snd (updateFighter {''g''} 7 (fighter1_init\<lparr> energy := 29.5 \<rparr>)) \<noteq> [] \<and>
   energy (fst (updateFighter {''g''} 7 (fighter1_init\<lparr> energy := 29.5 \<rparr>))) = 0"
  by (simp add: updateFighter_fst updateFighter_snd handleInput_fst handleInput_snd
      specialStep_changes fighter1_init_def)

subsection \<open>Physics\<close>

lemma applyPhysics_changes:
  "x (applyPhysics f) = max 0 (min (CANVAS_WIDTH - width f) (x f + velocityX f))"
  "y (applyPhysics f) =
     (if y f + (if isGrounded f then velocityY f else velocityY f + GRAVITY)
           \<ge> GROUND_Y - height f
      then GROUND_Y - height f
      else y f + (if isGrounded f then velocityY f else velocityY f + GRAVITY))"
  "state (applyPhysics f) =
     (if y f + (if isGrounded f then velocityY f else velocityY f + GRAVITY)
           \<ge> GROUND_Y - height f \<and> state f = Jumping
      then Idle else state f)"
  by (simp_all add: applyPhysics_def Let_def)

lemma moveStep_changes:
  "velocityX (moveStep keys f) =
     (if leftKey (controlsOf f) \<in> keys \<and> x f > 0 then - MOVE_SPEED
      else if rightKey (controlsOf f) \<in> keys \<and> x f < CANVAS_WIDTH - width f then MOVE_SPEED
      else velocityX (friction f))"
  "facing (moveStep keys f) =
     (if leftKey (controlsOf f) \<in> keys \<and> x f > 0 then Left
      else if rightKey (controlsOf f) \<in> keys \<and> x f < CANVAS_WIDTH - width f then Right
      else facing f)"
  "state (moveStep keys f) =
     (if leftKey (controlsOf f) \<in> keys \<and> x f > 0 then Walking
      else if rightKey (controlsOf f) \<in> keys \<and> x f < CANVAS_WIDTH - width f then Walking
      else state (friction f))"
  by (simp_all add: moveStep_def)

lemma jumpStep_changes:
  "velocityY (jumpStep keys f) =
     (if jumpKey (controlsOf f) \<in> keys \<and> isGrounded f then JUMP_FORCE else velocityY f)"
  "isGrounded (jumpStep keys f) =
     (if jumpKey (controlsOf f) \<in> keys \<and> isGrounded f then False else isGrounded f)"
  "state (jumpStep keys f) =
     (if jumpKey (controlsOf f) \<in> keys \<and> isGrounded f then Jumping else state f)"
  by (simp_all add: jumpStep_def)

lemma preInput_state:
  "state (preInput f) =
     (if hitStun (preInput f) = 0 \<and> blockStun (preInput f) = 0 \<and> state f = Hit then Idle
      else state f)"
  by (simp add: preInput_def resetHit_def)

subsection \<open>Stun and input\<close>

lemma updateFighter_stunned:
  assumes "hitStun (preInput f) \<noteq> 0 \<or> blockStun (preInput f) \<noteq> 0"
  shows "updateFighter keys now f = (applyPhysics (preInput f), [])"
  using assms by (auto simp add: updateFighter_def Let_def simp del: preInput_fields)

text \<open>
  C3 (as amended). The timers are decremented before the input gate is tested, so the
  gate closes for a fighter whose \<open>hitStun\<close> or \<open>blockStun\<close> is still positive after the
  decrement, that is greater than 1 at the start of the tick. For such a fighter the
  per-fighter update does not depend on the input snapshot (nor on the clock): any two
  snapshots give the same fighter (position, velocity, state and every other field) and
  no projectile.
\<close>

theorem C3_stunned_ignores_input:
  assumes "hitStun f > 1 \<or> blockStun f > 1"
  shows "updateFighter keys1 now1 f = updateFighter keys2 now2 f \<and>
         snd (updateFighter keys1 now1 f) = []"
proof -
  have gate: "hitStun (preInput f) \<noteq> 0 \<or> blockStun (preInput f) \<noteq> 0"
    using assms by auto
  show ?thesis
    by (simp add: updateFighter_stunned [OF gate])
qed

theorem C3_witness:
  "updateFighter {''q'', ''z'', ''f'', ''g'', ''s''} 7 (fighter1_init\<lparr> hitStun := 20, state := Hit \<rparr>) =
     updateFighter {} 8 (fighter1_init\<lparr> hitStun := 20, state := Hit \<rparr>) \<and>
   snd (updateFighter {''q'', ''z'', ''f'', ''g'', ''s''} 7
          (fighter1_init\<lparr> hitStun := 20, state := Hit \<rparr>)) = []"
proof -
  have stun: "hitStun (fighter1_init\<lparr> hitStun := 20, state := Hit \<rparr>) > 1 \<or>
              blockStun (fighter1_init\<lparr> hitStun := 20, state := Hit \<rparr>) > 1"
    by simp
  show ?thesis
    by (rule C3_stunned_ignores_input [OF stun])
qed

text \<open>
  The claim as stated fails for a fighter that starts the tick with \<open>hitStun = 1\<close>: the
  decrement brings the timer to 0, the state \<open>Hit\<close> is reset and the input is read on
  that very tick. Holding the move-left key or not gives different velocities,
  positions and states.
\<close>

theorem C3_counterexample:
  "hitStun (fighter1_init\<lparr> hitStun := 1, state := Hit \<rparr>) > 0 \<and>
   velocityX (fst (updateFighter {''q''} 7 (fighter1_init\<lparr> hitStun := 1, state := Hit \<rparr>))) = - 1.2 \<and>
   velocityX (fst (updateFighter {} 7 (fighter1_init\<lparr> hitStun := 1, state := Hit \<rparr>))) = 0 \<and>
   x (fst (updateFighter {''q''} 7 (fighter1_init\<lparr> hitStun := 1, state := Hit \<rparr>))) = 198.8 \<and>
   x (fst (updateFighter {} 7 (fighter1_init\<lparr> hitStun := 1, state := Hit \<rparr>))) = 200 \<and>
   state (fst (updateFighter {''q''} 7 (fighter1_init\<lparr> hitStun := 1, state := Hit \<rparr>))) = Walking \<and>
   state (fst (updateFighter {} 7 (fighter1_init\<lparr> hitStun := 1, state := Hit \<rparr>))) = Idle"
  by (simp add: updateFighter_fst handleInput_fst applyPhysics_changes blockStep_state
      specialStep_changes attackStep_changes jumpStep_changes moveStep_changes
      friction_velocityX friction_state preInput_state
      fighter1_init_def MOVE_SPEED_def CANVAS_WIDTH_def GROUND_Y_def GRAVITY_def)

subsection \<open>Friction\<close>

lemma updateFighter_velocityX:
  "velocityX (fst (updateFighter keys now f)) =
     (if hitStun (preInput f) = 0 \<and> blockStun (preInput f) = 0
      then velocityX (moveStep keys (preInput f)) else velocityX f)"
  by (simp add: updateFighter_fst handleInput_fst del: preInput_fields)
     (simp add: preInput_fields(6))

text \<open>
  C4 (as amended). The friction is the last branch of the movement block, which lies
  inside the input gate. On a tick on which the fighter is past the gate (both stun
  timers are 0 after the decrement) and neither move branch is taken (the left key is
  not held or \<open>x \<le> 0\<close>, and the right key is not held or \<open>x \<ge> CANVAS_WIDTH - width\<close>),
  the horizontal velocity is multiplied by 0.8, and set to 0 when the product is below
  0.1 in absolute value; the state after the movement block is then \<open>Idle\<close> if it was
  \<open>Walking\<close>. On a tick on which the fighter is stunned the per-fighter update leaves
  the horizontal velocity as it was: no friction applies.
\<close>

theorem C4_friction_only_past_the_gate:
  assumes "\<not> (leftKey (controlsOf f) \<in> keys \<and> x f > 0)"
      and "\<not> (rightKey (controlsOf f) \<in> keys \<and> x f < CANVAS_WIDTH - width f)"
  shows "(hitStun (preInput f) = 0 \<and> blockStun (preInput f) = 0 \<longrightarrow>
            velocityX (fst (updateFighter keys now f)) =
              (if \<bar>velocityX f * 0.8\<bar> < 0.1 then 0 else velocityX f * 0.8) \<and>
            state (moveStep keys (preInput f)) =
              (if \<bar>velocityX f * 0.8\<bar> < 0.1 \<and> state (preInput f) = Walking then Idle
               else state (preInput f))) \<and>
         (hitStun (preInput f) \<noteq> 0 \<or> blockStun (preInput f) \<noteq> 0 \<longrightarrow>
            velocityX (fst (updateFighter keys now f)) = velocityX f)"
proof -
  have move: "moveStep keys (preInput f) = friction (preInput f)"
    using assms by (auto simp add: moveStep_def)
  show ?thesis
    unfolding updateFighter_velocityX move
    by (auto simp add: friction_velocityX friction_state simp del: preInput_fields)
       (simp_all add: preInput_fields(6))
qed

theorem C4_witness:
  "velocityX (fst (updateFighter {} 7 (fighter2_init\<lparr> velocityX := 3 \<rparr>))) = 2.4 \<and>
   velocityX (fst (updateFighter {} 7 (fighter2_init\<lparr> velocityX := 0.12, state := Walking \<rparr>))) = 0 \<and>
   state (moveStep {} (preInput (fighter2_init\<lparr> velocityX := 0.12, state := Walking \<rparr>))) = Idle \<and>
   velocityX (fst (updateFighter {} 7 (fighter2_init\<lparr> velocityX := 3, hitStun := 20 \<rparr>))) = 3"
  using C4_friction_only_past_the_gate [of "fighter2_init\<lparr> velocityX := 3 \<rparr>" "{}" 7]
    C4_friction_only_past_the_gate
      [of "fighter2_init\<lparr> velocityX := 0.12, state := Walking \<rparr>" "{}" 7]
    C4_friction_only_past_the_gate [of "fighter2_init\<lparr> velocityX := 3, hitStun := 20 \<rparr>" "{}" 7]
  by (simp add: preInput_state fighter2_init_def)

text \<open>
  The claim as stated fails on a stunned tick: a fighter just knocked back (velocity 3,
  \<open>hitStun = 20\<close>) with no key held keeps its velocity 3 instead of slowing to 2.4.
\<close>

theorem C4_counterexample:
  "hitStun (fighter2_init\<lparr> velocityX := 3, hitStun := 20, state := Hit \<rparr>) > 0 \<and>
   velocityX (fst (updateFighter {} 7
      (fighter2_init\<lparr> velocityX := 3, hitStun := 20, state := Hit \<rparr>))) = 3 \<and>
   velocityX (fst (updateFighter {} 7
      (fighter2_init\<lparr> velocityX := 3, hitStun := 20, state := Hit \<rparr>))) \<noteq> 3 * 0.8"
  by (simp add: updateFighter_velocityX)

subsection \<open>Melee hits\<close>

lemma handleAttack_blocked:
  assumes "state d = Blocking" and "facingOpposed a d"
  shows "handleAttack a d w = (a, d\<lparr> blockStun := 15, energy := max 0 (energy d - 5) \<rparr>, w)"
  using assms by (simp add: handleAttack_def)

lemma handleAttack_hit:
  assumes "\<not> (state d = Blocking \<and> facingOpposed a d)"
  shows "handleAttack a d w =
           (a\<lparr> combo := combo a + 1 \<rparr>,
            d\<lparr> health := max 0 (health d - ATTACK_DAMAGE), hitStun := 20, state := Hit,
               velocityX := (if facing a = Right then 3 else - 3) \<rparr>,
            if max 0 (health d - ATTACK_DAMAGE) \<le> 0
            then w\<lparr> winner := Some (name a), gameState := GameOver,
                    scores := (if fid a = 1
                               then (scores w)\<lparr> player1 := player1 (scores w) + 1 \<rparr>
                               else (scores w)\<lparr> player2 := player2 (scores w) + 1 \<rparr>) \<rparr>
            else w)"
  using assms by (auto simp add: handleAttack_def Let_def)

lemma exchange_miss:
  "\<not> attackLands a d \<Longrightarrow> exchange i a d w = (a, d, w, [])"
  by (simp add: exchange_def)

lemma exchange_lands:
  "attackLands a d \<Longrightarrow>
   exchange i a d w =
     (fst (handleAttack a d w), fst (snd (handleAttack a d w)), snd (snd (handleAttack a d w)), [i])"
  by (simp add: exchange_def case_prod_beta)

lemma meleeStep_two:
  "meleeStep [f1, f2] w =
     ([fst (snd (exchange 2 (fst (snd (exchange 1 f1 f2 w))) (fst (exchange 1 f1 f2 w))
                  (fst (snd (snd (exchange 1 f1 f2 w)))))),
       fst (exchange 2 (fst (snd (exchange 1 f1 f2 w))) (fst (exchange 1 f1 f2 w))
                  (fst (snd (snd (exchange 1 f1 f2 w)))))],
      fst (snd (snd (exchange 2 (fst (snd (exchange 1 f1 f2 w))) (fst (exchange 1 f1 f2 w))
                  (fst (snd (snd (exchange 1 f1 f2 w))))))),
      snd (snd (snd (exchange 1 f1 f2 w))) @
      snd (snd (snd (exchange 2 (fst (snd (exchange 1 f1 f2 w))) (fst (exchange 1 f1 f2 w))
                  (fst (snd (snd (exchange 1 f1 f2 w))))))))"
  by (simp add: meleeStep_def case_prod_beta)

lemma meleeStep_other:
  "length fs \<noteq> 2 \<Longrightarrow> meleeStep fs w = (fs, w, [])"
  by (auto simp add: meleeStep_def split: list.splits)

text \<open>
  C10. When both fighters would land a melee hit on the same tick, the first fighter
  of the array is resolved first. The second fighter is in state \<open>Attacking\<close>, hence not
  blocking, so the hit is a full hit and puts it in state \<open>Hit\<close>; its own test
  (\<open>Attacking\<close> with cooldown 29) then fails. The exchange makes one call of
  \<^verbatim>\<open>handleAttack\<close>, by the first fighter: the second loses health and is knocked back,
  the first only gains a combo point.
\<close>

theorem C10_first_fighter_wins_exchange:
  assumes "attackLands f1 f2" and "attackLands f2 f1"
  shows "fst (meleeStep [f1, f2] w) =
           [f1\<lparr> combo := combo f1 + 1 \<rparr>,
            f2\<lparr> health := max 0 (health f2 - ATTACK_DAMAGE), hitStun := 20, state := Hit,
               velocityX := (if facing f1 = Right then 3 else - 3) \<rparr>] \<and>
         snd (snd (meleeStep [f1, f2] w)) = [1] \<and>
         \<not> attackLands (fst (snd (handleAttack f1 f2 w))) (fst (handleAttack f1 f2 w))"
proof -
  have nb: "\<not> (state f2 = Blocking \<and> facingOpposed f1 f2)"
    using assms(2) by (simp add: attackLands_def)
  have second: "\<not> attackLands (fst (snd (handleAttack f1 f2 w))) (fst (handleAttack f1 f2 w))"
    by (simp add: handleAttack_hit [OF nb] attackLands_def)
  have first: "exchange 1 f1 f2 w =
     (fst (handleAttack f1 f2 w), fst (snd (handleAttack f1 f2 w)),
      snd (snd (handleAttack f1 f2 w)), [1])"
    by (rule exchange_lands [OF assms(1)])
  show ?thesis
    unfolding meleeStep_two first fst_conv snd_conv exchange_miss [OF second]
    using second by (simp add: handleAttack_hit [OF nb])
qed

theorem C10_witness:
  "fst (meleeStep
      [fighter1_init\<lparr> state := Attacking, attackCooldown := 29 \<rparr>,
       fighter2_init\<lparr> x := 250, state := Attacking, attackCooldown := 29 \<rparr>] initialWorld) =
     [fighter1_init\<lparr> state := Attacking, attackCooldown := 29, combo := 1 \<rparr>,
      fighter2_init\<lparr> x := 250, state := Hit, attackCooldown := 29, health := 85,
                       hitStun := 20, velocityX := 3 \<rparr>] \<and>
   snd (snd (meleeStep
      [fighter1_init\<lparr> state := Attacking, attackCooldown := 29 \<rparr>,
       fighter2_init\<lparr> x := 250, state := Attacking, attackCooldown := 29 \<rparr>] initialWorld)) = [1]"
proof -
  have l1: "attackLands (fighter1_init\<lparr> state := Attacking, attackCooldown := 29 \<rparr>)
              (fighter2_init\<lparr> x := 250, state := Attacking, attackCooldown := 29 \<rparr>)"
    by (simp add: attackLands_def checkCollision_def attackRange_def fighterRect_def
        js_lt_def js_gt_def js_add_def fighter1_init_def fighter2_init_def GROUND_Y_def)
  have l2: "attackLands (fighter2_init\<lparr> x := 250, state := Attacking, attackCooldown := 29 \<rparr>)
              (fighter1_init\<lparr> state := Attacking, attackCooldown := 29 \<rparr>)"
    by (simp add: attackLands_def checkCollision_def attackRange_def fighterRect_def
        js_lt_def js_gt_def js_add_def fighter1_init_def fighter2_init_def GROUND_Y_def)
  show ?thesis
    using C10_first_fighter_wins_exchange [OF l1 l2, of initialWorld]
    by (simp add: fighter1_init_def fighter2_init_def ATTACK_DAMAGE_def)
qed

subsection \<open>Calls and health in a melee hit\<close>

lemma meleeStep_calls_count:
  "count_list (snd (snd (meleeStep fs w))) i \<le> 1"
proof (cases "length fs = 2")
  case True
  then obtain f1 f2 where fs: "fs = [f1, f2]"
    by (cases fs; cases "tl fs") auto
  show ?thesis
    unfolding fs meleeStep_two by (simp add: exchange_def case_prod_beta)
next
  case False
  then show ?thesis by (simp add: meleeStep_other)
qed


lemma handleAttack_health:
  "health (fst (handleAttack a d w)) = health a"
  "health (fst (snd (handleAttack a d w))) =
     (if state d = Blocking \<and> facingOpposed a d then health d
      else max 0 (health d - ATTACK_DAMAGE))"
  by (simp_all add: handleAttack_def Let_def)

subsection \<open>The tick, field by field\<close>

lemma tick_not_playing:
  "gameState w \<noteq> Playing \<Longrightarrow> tick keys now w = (w, [])"
  by (simp add: tick_def)

lemma tick_playing:
  "gameState w = Playing \<Longrightarrow>
   tick keys now w =
     ((fst (snd (meleeStep (fst (updateFighters keys now (fighters w))) w)))
        \<lparr> fighters := fst (meleeStep (fst (updateFighters keys now (fighters w))) w),
          projectiles := snd (updateProjectiles (fighters w) (projectiles w)) @
                         snd (updateFighters keys now (fighters w)) \<rparr>,
      snd (snd (meleeStep (fst (updateFighters keys now (fighters w))) w)))"
  by (simp add: tick_def case_prod_beta)

lemma updateFighters_two:
  "updateFighters keys now [f1, f2] =
     ([fst (updateFighter keys now f1), fst (updateFighter keys now f2)],
      snd (updateFighter keys now f1) @ snd (updateFighter keys now f2))"
  by (simp add: case_prod_beta)

lemma updateFighters_fst:
  "fst (updateFighters keys now fs) = map (\<lambda>f. fst (updateFighter keys now f)) fs"
  by (induction fs) (simp_all add: case_prod_beta)

subsection \<open>Projectiles never collide\<close>

text \<open>
  A projectile object has no \<^verbatim>\<open>width\<close> and no \<^verbatim>\<open>height\<close>, so the second and the
  fourth comparison of \<^verbatim>\<open>checkCollision(projectile, targetFighter)\<close> are comparisons
  with NaN: the test is false for every projectile and every fighter.
\<close>

lemma projectile_never_collides:
  "\<not> checkCollision (projectileRect p) r"
  by (simp add: checkCollision_def projectileRect_def js_add_def js_gt_def)

lemma stepProjectile_eq:
  "stepProjectile fs p =
     (fs, if p_x p + p_velocityX p > - 50 \<and> p_x p + p_velocityX p < CANVAS_WIDTH + 50
          then Some (p\<lparr> p_x := p_x p + p_velocityX p, p_y := p_y p + p_velocityY p,
                        p_animationFrame := p_animationFrame p + 1 \<rparr>)
          else None)"
  by (simp add: stepProjectile_def Let_def projectile_never_collides split: option.splits)

lemma updateProjectiles_fighters:
  "fst (updateProjectiles fs ps) = fs"
  by (induction ps) (simp_all add: case_prod_beta stepProjectile_eq)

lemma updateProjectiles_Cons:
  "snd (updateProjectiles fs (p # ps)) =
     (if p_x p + p_velocityX p > - 50 \<and> p_x p + p_velocityX p < CANVAS_WIDTH + 50
      then [p\<lparr> p_x := p_x p + p_velocityX p, p_y := p_y p + p_velocityY p,
               p_animationFrame := p_animationFrame p + 1 \<rparr>]
      else []) @ snd (updateProjectiles fs ps)"
  by (simp add: case_prod_beta stepProjectile_eq)

lemma updateProjectiles_Nil:
  "snd (updateProjectiles fs []) = []"
  by simp

lemma updateFighter_state:
  "state (fst (updateFighter keys now f)) =
     state (applyPhysics (if hitStun (preInput f) = 0 \<and> blockStun (preInput f) = 0
                          then fst (handleInput keys now (preInput f)) else preInput f))"
  by (simp only: updateFighter_fst)

lemma idle_fighters_tick:
  assumes "gameState w = Playing" and "fighters w = [f1, f2]"
    and "state (fst (updateFighter keys now f1)) \<noteq> Attacking"
    and "state (fst (updateFighter keys now f2)) \<noteq> Attacking"
  shows "tick keys now w =
     (w\<lparr> fighters := [fst (updateFighter keys now f1), fst (updateFighter keys now f2)],
         projectiles := snd (updateProjectiles [f1, f2] (projectiles w)) @
            snd (updateFighter keys now f1) @ snd (updateFighter keys now f2) \<rparr>,
      [])"
proof -
  have m1: "\<not> attackLands (fst (updateFighter keys now f1)) (fst (updateFighter keys now f2))"
    using assms(3) by (simp add: attackLands_def)
  have m2: "\<not> attackLands (fst (updateFighter keys now f2)) (fst (updateFighter keys now f1))"
    using assms(4) by (simp add: attackLands_def)
  show ?thesis
    unfolding tick_playing [OF assms(1)] assms(2) updateFighters_two fst_conv snd_conv
      meleeStep_two exchange_miss [OF m1] exchange_miss [OF m2]
    by simp
qed

text \<open>
  C7, at the failing input. Fighter 2 stands at its spawn position (x from 940 to 1000,
  y from 420 to 500) and an ice projectile of fighter 1 is at (948, 460), moving by 8.
  After the tick the projectile is at (956, 460), inside the rectangle of fighter 2,
  which has not moved, and it is still in the live collection: the collision test of
  the projectile update did not see the overlap.
\<close>

theorem C7_overlapping_projectile_stays:
  "projectiles (updateGame {} 8
      ((startGame initialWorld)\<lparr> projectiles :=
          [(createProjectile 7 fighter1_init Ice)\<lparr> p_x := 948, p_animationFrame := 86 \<rparr>] \<rparr>)) =
     [(createProjectile 7 fighter1_init Ice)\<lparr> p_x := 956, p_animationFrame := 87 \<rparr>] \<and>
   map x (fighters (updateGame {} 8
      ((startGame initialWorld)\<lparr> projectiles :=
          [(createProjectile 7 fighter1_init Ice)\<lparr> p_x := 948, p_animationFrame := 86 \<rparr>] \<rparr>))) =
     [200, 940] \<and>
   map y (fighters (updateGame {} 8
      ((startGame initialWorld)\<lparr> projectiles :=
          [(createProjectile 7 fighter1_init Ice)\<lparr> p_x := 948, p_animationFrame := 86 \<rparr>] \<rparr>))) =
     [420, 420] \<and>
   p_y (createProjectile 7 fighter1_init Ice) = 460 \<and>
   p_owner (createProjectile 7 fighter1_init Ice) = 1 \<and>
   width fighter2_init = 60 \<and> height fighter2_init = 80"
proof -
  let ?w = "(startGame initialWorld)\<lparr> projectiles :=
          [(createProjectile 7 fighter1_init Ice)\<lparr> p_x := 948, p_animationFrame := 86 \<rparr>] \<rparr>"
  have p: "gameState ?w = Playing" and fs: "fighters ?w = [fighter1_init, fighter2_init]"
    by (simp_all add: startGame_def initializeFighters_def)
  have s1: "state (fst (updateFighter {} 8 fighter1_init)) \<noteq> Attacking"
    by (simp add: updateFighter_state handleInput_fst applyPhysics_changes blockStep_state
        specialStep_changes attackStep_changes jumpStep_changes moveStep_changes
        friction_state preInput_state fighter1_init_def)
  have s2: "state (fst (updateFighter {} 8 fighter2_init)) \<noteq> Attacking"
    by (simp add: updateFighter_state handleInput_fst applyPhysics_changes blockStep_state
        specialStep_changes attackStep_changes jumpStep_changes moveStep_changes
        friction_state preInput_state fighter2_init_def)
  have x1: "x (fst (updateFighter {} 8 fighter1_init)) = 200"
       "y (fst (updateFighter {} 8 fighter1_init)) = 420"
    by (simp_all add: updateFighter_fst handleInput_fst applyPhysics_changes
        jumpStep_changes moveStep_changes friction_velocityX
        fighter1_init_def CANVAS_WIDTH_def GROUND_Y_def GRAVITY_def)
  have x2: "x (fst (updateFighter {} 8 fighter2_init)) = 940"
       "y (fst (updateFighter {} 8 fighter2_init)) = 420"
    by (simp_all add: updateFighter_fst handleInput_fst applyPhysics_changes
        jumpStep_changes moveStep_changes friction_velocityX
        fighter2_init_def CANVAS_WIDTH_def GROUND_Y_def GRAVITY_def)
  have sp: "snd (updateFighter {} 8 fighter1_init) = []" "snd (updateFighter {} 8 fighter2_init) = []"
    by (simp_all add: updateFighter_snd handleInput_snd specialStep_changes)
  have pr: "snd (updateProjectiles [fighter1_init, fighter2_init]
        [(createProjectile 7 fighter1_init Ice)\<lparr> p_x := 948, p_animationFrame := 86 \<rparr>]) =
      [(createProjectile 7 fighter1_init Ice)\<lparr> p_x := 956, p_animationFrame := 87 \<rparr>]"
    by (simp add: updateProjectiles_Cons createProjectile_def CANVAS_WIDTH_def
        fighter1_init_def del: updateProjectiles.simps(2))
  have rest: "p_y (createProjectile 7 fighter1_init Ice) = 460 \<and>
      p_owner (createProjectile 7 fighter1_init Ice) = 1 \<and>
      width fighter2_init = 60 \<and> height fighter2_init = 80"
    by (simp add: createProjectile_def fighter1_init_def fighter2_init_def GROUND_Y_def)
  have after: "updateGame {} 8 ?w =
      ?w\<lparr> fighters := [fst (updateFighter {} 8 fighter1_init), fst (updateFighter {} 8 fighter2_init)],
          projectiles := [(createProjectile 7 fighter1_init Ice)\<lparr> p_x := 956, p_animationFrame := 87 \<rparr>] \<rparr>"
    unfolding updateGame_def idle_fighters_tick [OF p fs s1 s2] fst_conv sp
    by (simp add: pr del: updateProjectiles.simps(2))
  show ?thesis
    unfolding after using rest by (simp add: x1 x2)
qed

lemma updateProjectiles_live:
  "snd (updateProjectiles fs ps) =
     map (\<lambda>p. p\<lparr> p_x := p_x p + p_velocityX p, p_y := p_y p + p_velocityY p,
                  p_animationFrame := p_animationFrame p + 1 \<rparr>)
       (filter (\<lambda>p. p_x p + p_velocityX p > - 50 \<and> p_x p + p_velocityX p < CANVAS_WIDTH + 50) ps)"
  by (induction ps) (simp_all add: updateProjectiles_Cons del: updateProjectiles.simps(2))

text \<open>
  C5, at the failing input. The setting of C7: fighter 2 stands idle, not blocking, at
  its spawn position, and an ice projectile of fighter 1 with damage 25 moves from
  (948, 460) to (956, 460), inside the rectangle of fighter 2. The hit takes nothing:
  after the tick fighter 2 still has health 100, no hit stun and state \<open>Idle\<close>.
\<close>

theorem C5_overlapping_projectile_takes_no_health:
  "map state (fighters ((startGame initialWorld)\<lparr> projectiles :=
      [(createProjectile 7 fighter1_init Ice)\<lparr> p_x := 948, p_animationFrame := 86 \<rparr>] \<rparr>)) =
     [Idle, Idle] \<and>
   map p_damage (projectiles (updateGame {} 8
      ((startGame initialWorld)\<lparr> projectiles :=
          [(createProjectile 7 fighter1_init Ice)\<lparr> p_x := 948, p_animationFrame := 86 \<rparr>] \<rparr>))) =
     [25] \<and>
   map p_x (projectiles (updateGame {} 8
      ((startGame initialWorld)\<lparr> projectiles :=
          [(createProjectile 7 fighter1_init Ice)\<lparr> p_x := 948, p_animationFrame := 86 \<rparr>] \<rparr>))) =
     [956] \<and>
   map p_y (projectiles (updateGame {} 8
      ((startGame initialWorld)\<lparr> projectiles :=
          [(createProjectile 7 fighter1_init Ice)\<lparr> p_x := 948, p_animationFrame := 86 \<rparr>] \<rparr>))) =
     [460] \<and>
   map x (fighters (updateGame {} 8
      ((startGame initialWorld)\<lparr> projectiles :=
          [(createProjectile 7 fighter1_init Ice)\<lparr> p_x := 948, p_animationFrame := 86 \<rparr>] \<rparr>))) =
     [200, 940] \<and>
   map y (fighters (updateGame {} 8
      ((startGame initialWorld)\<lparr> projectiles :=
          [(createProjectile 7 fighter1_init Ice)\<lparr> p_x := 948, p_animationFrame := 86 \<rparr>] \<rparr>))) =
     [420, 420] \<and>
   map health (fighters (updateGame {} 8
      ((startGame initialWorld)\<lparr> projectiles :=
          [(createProjectile 7 fighter1_init Ice)\<lparr> p_x := 948, p_animationFrame := 86 \<rparr>] \<rparr>))) =
     [100, 100] \<and>
   map hitStun (fighters (updateGame {} 8
      ((startGame initialWorld)\<lparr> projectiles :=
          [(createProjectile 7 fighter1_init Ice)\<lparr> p_x := 948, p_animationFrame := 86 \<rparr>] \<rparr>))) =
     [0, 0] \<and>
   map state (fighters (updateGame {} 8
      ((startGame initialWorld)\<lparr> projectiles :=
          [(createProjectile 7 fighter1_init Ice)\<lparr> p_x := 948, p_animationFrame := 86 \<rparr>] \<rparr>))) =
     [Idle, Idle]"
proof -
  let ?w = "(startGame initialWorld)\<lparr> projectiles :=
          [(createProjectile 7 fighter1_init Ice)\<lparr> p_x := 948, p_animationFrame := 86 \<rparr>] \<rparr>"
  have p: "gameState ?w = Playing" and fs: "fighters ?w = [fighter1_init, fighter2_init]"
    by (simp_all add: startGame_def initializeFighters_def)
  have before: "map state (fighters ?w) = [Idle, Idle]"
    by (simp add: startGame_def initializeFighters_def fighter1_init_def fighter2_init_def)
  have u1: "state (fst (updateFighter {} 8 fighter1_init)) = Idle"
      "x (fst (updateFighter {} 8 fighter1_init)) = 200"
      "y (fst (updateFighter {} 8 fighter1_init)) = 420"
      "health (fst (updateFighter {} 8 fighter1_init)) = 100"
      "hitStun (fst (updateFighter {} 8 fighter1_init)) = 0"
    by (simp_all add: updateFighter_fst handleInput_fst applyPhysics_changes blockStep_state
        specialStep_changes attackStep_changes jumpStep_changes moveStep_changes
        friction_velocityX friction_state preInput_state
        fighter1_init_def CANVAS_WIDTH_def GROUND_Y_def GRAVITY_def)
  have u2: "state (fst (updateFighter {} 8 fighter2_init)) = Idle"
      "x (fst (updateFighter {} 8 fighter2_init)) = 940"
      "y (fst (updateFighter {} 8 fighter2_init)) = 420"
      "health (fst (updateFighter {} 8 fighter2_init)) = 100"
      "hitStun (fst (updateFighter {} 8 fighter2_init)) = 0"
    by (simp_all add: updateFighter_fst handleInput_fst applyPhysics_changes blockStep_state
        specialStep_changes attackStep_changes jumpStep_changes moveStep_changes
        friction_velocityX friction_state preInput_state
        fighter2_init_def CANVAS_WIDTH_def GROUND_Y_def GRAVITY_def)
  have s1: "state (fst (updateFighter {} 8 fighter1_init)) \<noteq> Attacking"
    and s2: "state (fst (updateFighter {} 8 fighter2_init)) \<noteq> Attacking"
    by (simp_all add: u1 u2)
  have sp: "snd (updateFighter {} 8 fighter1_init) = []" "snd (updateFighter {} 8 fighter2_init) = []"
    by (simp_all add: updateFighter_snd handleInput_snd specialStep_changes)
  have pr: "snd (updateProjectiles [fighter1_init, fighter2_init]
        [(createProjectile 7 fighter1_init Ice)\<lparr> p_x := 948, p_animationFrame := 86 \<rparr>]) =
      [(createProjectile 7 fighter1_init Ice)\<lparr> p_x := 956, p_animationFrame := 87 \<rparr>]"
    by (simp add: updateProjectiles_Cons createProjectile_def CANVAS_WIDTH_def
        fighter1_init_def del: updateProjectiles.simps(2))
  have shot: "p_y (createProjectile 7 fighter1_init Ice) = 460 \<and>
      p_damage (createProjectile 7 fighter1_init Ice) = 25"
    by (simp add: createProjectile_def fighter1_init_def GROUND_Y_def SPECIAL_DAMAGE_def)
  have after: "updateGame {} 8 ?w =
      ?w\<lparr> fighters := [fst (updateFighter {} 8 fighter1_init), fst (updateFighter {} 8 fighter2_init)],
          projectiles := [(createProjectile 7 fighter1_init Ice)\<lparr> p_x := 956, p_animationFrame := 87 \<rparr>] \<rparr>"
    unfolding updateGame_def idle_fighters_tick [OF p fs s1 s2] fst_conv sp
    by (simp add: pr del: updateProjectiles.simps(2))
  show ?thesis
    unfolding after using before shot by (simp add: u1 u2)
qed

subsection \<open>Health and energy stay in range\<close>

lemma inBounds_preInput:
  "inBounds f \<Longrightarrow> inBounds (preInput f)"
  by (auto simp add: inBounds_def)

lemma inBounds_regenEnergy:
  "inBounds f \<Longrightarrow> inBounds (regenEnergy f)"
  by (auto simp add: inBounds_def)

lemma inBounds_handleInput:
  "inBounds f \<Longrightarrow> inBounds (fst (handleInput keys now f))"
  by (auto simp add: inBounds_def handleInput_fst specialStep_changes)

lemma inBounds_applyPhysics:
  "inBounds f \<Longrightarrow> inBounds (applyPhysics f)"
  by (simp add: inBounds_def)

lemma inBounds_updateFighter:
  "inBounds f \<Longrightarrow> inBounds (fst (updateFighter keys now f))"
  unfolding updateFighter_fst
  by (simp add: inBounds_applyPhysics inBounds_handleInput inBounds_preInput
      del: preInput_fields)

lemma inBounds_handleAttack:
  assumes "inBounds a" and "inBounds d"
  shows "inBounds (fst (handleAttack a d w))" and "inBounds (fst (snd (handleAttack a d w)))"
  using assms by (auto simp add: inBounds_def handleAttack_def Let_def ATTACK_DAMAGE_def)

lemma inBounds_projectileHit:
  "inBounds t \<Longrightarrow> 0 \<le> p_damage p \<Longrightarrow> inBounds (projectileHit p t)"
  by (auto simp add: inBounds_def projectileHit_def)

lemma inBounds_exchange:
  assumes "inBounds a" and "inBounds d"
  shows "inBounds (fst (exchange i a d w))" and "inBounds (fst (snd (exchange i a d w)))"
  using assms inBounds_handleAttack [OF assms, of w]
  by (simp_all add: exchange_def case_prod_beta)

lemma inBounds_meleeStep:
  assumes "list_all inBounds fs"
  shows "list_all inBounds (fst (meleeStep fs w))"
proof (cases "length fs = 2")
  case True
  then obtain f1 f2 where fs: "fs = [f1, f2]"
    by (cases fs; cases "tl fs") auto
  have b: "inBounds f1" "inBounds f2"
    using assms by (simp_all add: fs)
  show ?thesis
    unfolding fs meleeStep_two fst_conv
    by (simp add: inBounds_exchange b)
next
  case False
  then show ?thesis
    using assms by (simp add: meleeStep_other)
qed

lemma inBounds_tick:
  assumes "list_all inBounds (fighters w)"
  shows "list_all inBounds (fighters (updateGame keys now w))"
proof (cases "gameState w = Playing")
  case True
  have "list_all inBounds (fst (updateFighters keys now (fighters w)))"
    using assms by (simp add: updateFighters_fst list_all_iff inBounds_updateFighter)
  then show ?thesis
    by (simp add: updateGame_def tick_playing [OF True] inBounds_meleeStep)
next
  case False
  then show ?thesis
    using assms by (simp add: updateGame_def tick_not_playing)
qed

lemma inBounds_init:
  "inBounds fighter1_init" "inBounds fighter2_init"
  by (simp_all add: inBounds_def fighter1_init_def fighter2_init_def)

lemma reachable_inBounds:
  "reachable w \<Longrightarrow> list_all inBounds (fighters w)"
proof (induction rule: reachable.induct)
  case r_init
  show ?case by (simp add: initialWorld_def)
next
  case (r_tick w keys now)
  then show ?case by (simp add: inBounds_tick)
qed (simp_all add: startGame_def nextRound_def resetGame_def initializeFighters_def
      togglePause_def resume_def inBounds_init)

text \<open>
  C2. In every reachable world (the initial state, then any sequence of button
  presses, Escape keys and ticks under any input) every fighter has its health in
  \<open>[0, maxHealth]\<close> and its energy in \<open>[0, maxEnergy]\<close>. Each operation that touches them
  keeps the range: the energy regeneration, a call of \<^verbatim>\<open>handleAttack\<close> (melee damage
  and the energy cost of a block), and the branch taken on a projectile collision for a
  non-negative damage.
\<close>

theorem C2_health_energy_in_range:
  assumes "reachable w"
  shows "(\<forall>f \<in> set (fighters w).
            0 \<le> health f \<and> health f \<le> maxHealth f \<and> 0 \<le> energy f \<and> energy f \<le> maxEnergy f) \<and>
         (inBounds t \<longrightarrow> inBounds (regenEnergy t)) \<and>
         (inBounds a \<and> inBounds t \<longrightarrow>
            inBounds (fst (handleAttack a t v)) \<and> inBounds (fst (snd (handleAttack a t v)))) \<and>
         (inBounds t \<and> 0 \<le> p_damage p \<longrightarrow> inBounds (projectileHit p t))"
proof -
  have "list_all inBounds (fighters w)"
    using assms by (rule reachable_inBounds)
  then have "\<forall>f \<in> set (fighters w).
      0 \<le> health f \<and> health f \<le> maxHealth f \<and> 0 \<le> energy f \<and> energy f \<le> maxEnergy f"
    by (simp add: list_all_iff inBounds_def)
  then show ?thesis
    using inBounds_regenEnergy [of t] inBounds_handleAttack [of a t v]
      inBounds_projectileHit [of t p]
    by blast
qed
lemma length_meleeStep:
  "length (fst (meleeStep fs w)) = length fs"
proof (cases "length fs = 2")
  case True
  then obtain f1 f2 where fs: "fs = [f1, f2]"
    by (cases fs; cases "tl fs") auto
  show ?thesis
    unfolding fs meleeStep_two by simp
next
  case False
  then show ?thesis by (simp add: meleeStep_other)
qed

lemma length_fighters_tick:
  "length (fighters (updateGame keys now w)) = length (fighters w)"
  by (cases "gameState w = Playing")
     (simp_all add: updateGame_def tick_playing tick_not_playing length_meleeStep
        updateFighters_fst)

theorem C2_witness:
  "reachable (updateGame {''g''} 1 (startGame initialWorld)) \<and>
   length (fighters (updateGame {''g''} 1 (startGame initialWorld))) = 2 \<and>
   list_all (\<lambda>f. 0 \<le> health f \<and> health f \<le> maxHealth f \<and> 0 \<le> energy f \<and> energy f \<le> maxEnergy f)
     (fighters (updateGame {''g''} 1 (startGame initialWorld)))"
proof -
  have r: "reachable (updateGame {''g''} 1 (startGame initialWorld))"
    by (intro r_tick r_start r_init)
  have l: "length (fighters (updateGame {''g''} 1 (startGame initialWorld))) = 2"
    by (simp add: length_fighters_tick startGame_def initializeFighters_def)
  show ?thesis
    using r l C2_health_energy_in_range [OF r] by (simp add: list_all_iff)
qed

subsection \<open>The attack cooldown along a run\<close>

lemma updateFighter_attackCooldown:
  "attackCooldown (fst (updateFighter keys now f)) =
     (if activates keys f then 30 else attackCooldown (preInput f))"
  by (simp add: updateFighter_fst handleInput_fst attackStep_changes activates_def
      del: preInput_fields)

lemma handleAttack_attackCooldown:
  "attackCooldown (fst (handleAttack a d w)) = attackCooldown a"
  "attackCooldown (fst (snd (handleAttack a d w))) = attackCooldown d"
  by (simp_all add: handleAttack_def Let_def)

lemma exchange_attackCooldown:
  "attackCooldown (fst (exchange i a d w)) = attackCooldown a"
  "attackCooldown (fst (snd (exchange i a d w))) = attackCooldown d"
  by (simp_all add: exchange_def case_prod_beta handleAttack_attackCooldown)

lemma handleAttack_defender_state:
  "state (fst (snd (handleAttack a d w))) \<noteq> Attacking"
  by (simp add: handleAttack_def Let_def)

lemma exchange_defender_attacking:
  assumes "state (fst (snd (exchange i a d w))) = Attacking"
  shows "exchange i a d w = (a, d, w, [])"
proof (cases "attackLands a d")
  case True
  then show ?thesis
    using assms handleAttack_defender_state [of a d w] by (simp add: exchange_lands)
next
  case False
  then show ?thesis by (simp add: exchange_miss)
qed

lemma exchange_calls:
  "snd (snd (snd (exchange i a d w))) = (if attackLands a d then [i] else [])"
  by (simp add: exchange_def case_prod_beta)

lemma fighterAt_Some:
  "fighterAt i w = Some f \<Longrightarrow>
   \<exists>f1 f2. fighters w = [f1, f2] \<and> ((i = 1 \<and> f = f1) \<or> (i = 2 \<and> f = f2))"
  by (auto simp add: fighterAt_def split: list.splits if_splits)

lemma tick_calls_gate:
  assumes "i \<in> set (snd (tick keys now w))"
  shows "gameState w = Playing \<and>
         (\<exists>f. fighterAt i w = Some f \<and>
               attackCooldown (fst (updateFighter keys now f)) = 29 \<and>
               state (fst (updateFighter keys now f)) = Attacking)"
proof -
  have p: "gameState w = Playing"
    using assms by (cases "gameState w = Playing") (simp_all add: tick_not_playing)
  have two: "length (fighters w) = 2"
  proof (rule ccontr)
    assume "length (fighters w) \<noteq> 2"
    then have "length (fst (updateFighters keys now (fighters w))) \<noteq> 2"
      by (simp add: updateFighters_fst)
    then show False
      using assms by (simp add: tick_playing [OF p] meleeStep_other)
  qed
  then obtain f1 f2 where fs: "fighters w = [f1, f2]"
    by (cases "fighters w"; cases "tl (fighters w)") auto
  define u1 where "u1 = fst (updateFighter keys now f1)"
  define u2 where "u2 = fst (updateFighter keys now f2)"
  define d2 where "d2 = fst (snd (exchange 1 u1 u2 w))"
  define a1 where "a1 = fst (exchange 1 u1 u2 w)"
  have calls: "snd (tick keys now w) =
      (if attackLands u1 u2 then [1] else []) @
      (if attackLands d2 a1 then [2] else [])"
    unfolding tick_playing [OF p] fs updateFighters_two fst_conv snd_conv meleeStep_two
    by (simp add: exchange_calls u1_def u2_def d2_def a1_def)
  from assms calls consider (one) "i = 1" "attackLands u1 u2" | (two) "i = 2" "attackLands d2 a1"
    by (auto split: if_splits)
  then show ?thesis
  proof cases
    case one
    then show ?thesis
      using p by (simp add: fighterAt_def fs attackLands_def u1_def)
  next
    case two
    then have st: "state d2 = Attacking" and cd: "attackCooldown d2 = 29"
      by (simp_all add: attackLands_def)
    have "exchange 1 u1 u2 w = (u1, u2, w, [])"
      using st unfolding d2_def by (rule exchange_defender_attacking)
    then have "d2 = u2"
      by (simp add: d2_def)
    then show ?thesis
      using p st cd two(1) by (simp add: fighterAt_def fs u2_def)
  qed
qed

lemma tick_calls_count:
  "count_list (snd (tick keys now w)) i \<le> 1"
proof (cases "gameState w = Playing")
  case True
  show ?thesis
    unfolding tick_playing [OF True] snd_conv by (rule meleeStep_calls_count)
next
  case False
  then show ?thesis by (simp add: tick_not_playing)
qed

lemma exchange_attacker_state:
  "state (fst (exchange i a d w)) = state a"
  by (simp add: exchange_def case_prod_beta handleAttack_def Let_def)

lemma exchange_defender_state:
  "state (fst (snd (exchange i a d w))) = Attacking \<Longrightarrow> state d = Attacking"
  using exchange_defender_attacking [of i a d w] by simp

lemma fighterAt_tick_playing:
  assumes "gameState w = Playing" and "fighterAt i w = Some f"
  shows "\<exists>g. fighterAt i (updateGame keys now w) = Some g \<and>
             attackCooldown g = attackCooldown (fst (updateFighter keys now f)) \<and>
             (state g = Attacking \<longrightarrow> state (fst (updateFighter keys now f)) = Attacking)"
proof -
  obtain f1 f2 where fs: "fighters w = [f1, f2]"
    and i: "(i = 1 \<and> f = f1) \<or> (i = 2 \<and> f = f2)"
    using fighterAt_Some [OF assms(2)] by blast
  define u1 where "u1 = fst (updateFighter keys now f1)"
  define u2 where "u2 = fst (updateFighter keys now f2)"
  define e1 where "e1 = exchange 1 u1 u2 w"
  define e2 where "e2 = exchange 2 (fst (snd e1)) (fst e1) (fst (snd (snd e1)))"
  have after: "fighters (updateGame keys now w) = [fst (snd e2), fst e2]"
    unfolding updateGame_def tick_playing [OF assms(1)] fs updateFighters_two fst_conv
      meleeStep_two
    by (simp add: e1_def e2_def u1_def u2_def)
  have c1: "attackCooldown (fst (snd e2)) = attackCooldown u1"
    and c2: "attackCooldown (fst e2) = attackCooldown u2"
    by (simp_all add: e2_def e1_def exchange_attackCooldown)
  have s1: "state (fst (snd e2)) = Attacking \<longrightarrow> state u1 = Attacking"
    using exchange_defender_state [of 2 "fst (snd e1)" "fst e1" "fst (snd (snd e1))"]
    by (simp add: e2_def e1_def exchange_attacker_state)
  have s2: "state (fst e2) = Attacking \<longrightarrow> state u2 = Attacking"
    using exchange_defender_state [of 1 u1 u2 w]
    by (simp add: e2_def e1_def exchange_attacker_state)
  show ?thesis
    using i c1 c2 s1 s2 by (auto simp add: fighterAt_def after u1_def u2_def)
qed

lemma fighterAt_tick_stopped:
  "gameState w \<noteq> Playing \<Longrightarrow> updateGame keys now w = w"
  by (simp add: updateGame_def tick_not_playing)

lemma stopped_run:
  "gameState w \<noteq> Playing \<Longrightarrow> callsBy i ks w = 0"
  by (induction ks) (simp_all add: fighterAt_tick_stopped tick_not_playing)

lemma quiet_tick:
  assumes "fighterAt i w = Some f" and "attackCooldown f \<le> 29"
  shows "count_list (snd (tick keys now w)) i = 0"
proof (rule ccontr)
  assume "count_list (snd (tick keys now w)) i \<noteq> 0"
  then have "i \<in> set (snd (tick keys now w))"
    by (simp add: count_list_0_iff)
  then have "attackCooldown (fst (updateFighter keys now f)) = 29"
    using tick_calls_gate [of i keys now w] assms(1) by auto
  then show False
    using assms(2) by (simp add: updateFighter_attackCooldown split: if_splits)
qed

lemma quiet_run:
  assumes "fighterAt i w = Some f" and "attackCooldown f \<le> 29"
    and "int (length ks) \<le> attackCooldown f"
  shows "callsBy i ks w = 0"
  using assms
proof (induction ks arbitrary: w f)
  case Nil
  show ?case by simp
next
  case (Cons k ks)
  have now0: "count_list (snd (tick (fst k) (snd k) w)) i = 0"
    using Cons.prems(1,2) by (rule quiet_tick)
  have rest: "callsBy i ks (updateGame (fst k) (snd k) w) = 0"
  proof (cases "gameState w = Playing")
    case False
    then show ?thesis by (simp add: fighterAt_tick_stopped stopped_run)
  next
    case True
    obtain g where g: "fighterAt i (updateGame (fst k) (snd k) w) = Some g"
      and cg: "attackCooldown g = attackCooldown (fst (updateFighter (fst k) (snd k) f))"
      using fighterAt_tick_playing [OF True Cons.prems(1)] by blast
    show ?thesis
    proof (cases ks)
      case Nil
      then show ?thesis by simp
    next
      case (Cons k' ks')
      then have long: "2 \<le> attackCooldown f"
        using Cons.prems(3) \<open>int (length (k # ks)) \<le> attackCooldown f\<close> by simp
      then have "\<not> activates (fst k) f"
        by (simp add: activates_def)
      then have "attackCooldown g = attackCooldown f - 1"
        using long by (simp add: cg updateFighter_attackCooldown)
      then show ?thesis
        using Cons.IH [OF g] Cons.prems(2,3) by simp
    qed
  qed
  show ?case
    using now0 rest by simp
qed

subsection \<open>The attack key during the cooldown\<close>

lemma other_keys:
  "leftKey (controlsOf f) \<in> insert (attackKey (controlsOf f)) S \<longleftrightarrow> leftKey (controlsOf f) \<in> S"
  "rightKey (controlsOf f) \<in> insert (attackKey (controlsOf f)) S \<longleftrightarrow> rightKey (controlsOf f) \<in> S"
  "jumpKey (controlsOf f) \<in> insert (attackKey (controlsOf f)) S \<longleftrightarrow> jumpKey (controlsOf f) \<in> S"
  "specialKey (controlsOf f) \<in> insert (attackKey (controlsOf f)) S \<longleftrightarrow> specialKey (controlsOf f) \<in> S"
  "blockKey (controlsOf f) \<in> insert (attackKey (controlsOf f)) S \<longleftrightarrow> blockKey (controlsOf f) \<in> S"
  by (simp_all add: controlsOf_def)

lemma attackStep_cooling:
  "attackCooldown f \<noteq> 0 \<Longrightarrow> attackStep keys f = f"
  by (simp add: attackStep_def)

lemma handleInput_attack_key_cooling:
  assumes "attackCooldown f \<noteq> 0"
  shows "handleInput (insert (attackKey (controlsOf f)) S) now f = handleInput S now f"
proof -
  let ?K = "insert (attackKey (controlsOf f)) S"
  have m: "moveStep ?K f = moveStep S f"
    by (simp add: moveStep_def other_keys del: insert_iff)
  have j: "jumpStep ?K (moveStep S f) = jumpStep S (moveStep S f)"
    by (simp add: jumpStep_def other_keys del: insert_iff)
  have a: "attackStep ?K (jumpStep S (moveStep S f)) = attackStep S (jumpStep S (moveStep S f))"
    using assms by (simp add: attackStep_cooling)
  have s: "specialStep ?K now (attackStep S (jumpStep S (moveStep S f))) =
           specialStep S now (attackStep S (jumpStep S (moveStep S f)))"
    by (simp add: specialStep_def other_keys del: insert_iff)
  have b: "blockStep ?K g = blockStep S g" if "controlsOf g = controlsOf f" for g
    using that by (simp add: blockStep_def other_keys del: insert_iff)
  show ?thesis
    unfolding handleInput_def m j a s
    by (simp add: case_prod_beta b)
qed

lemma updateFighter_attack_key_cooling:
  assumes "attackCooldown (preInput f) \<noteq> 0"
  shows "updateFighter (insert (attackKey (controlsOf f)) S) now f = updateFighter S now f"
  using handleInput_attack_key_cooling [of "preInput f" S now] assms
  by (simp add: updateFighter_def Let_def del: preInput_fields)

text \<open>
  C1. Take a tick of a running game on which the attack key of the fighter at position
  \<open>i\<close> is processed with \<open>attackCooldown = 0\<close> (an activation). Whatever the inputs of
  the following ticks are, \<^verbatim>\<open>handleAttack\<close> is not called for that fighter on the
  activation tick; in the run of up to 30 ticks that follows, it is called on the first
  tick only, and at most once there: the whole run from the activation on holds at most
  one call. (After 30 ticks the cooldown has expired and a new activation may start.)
  A call for that fighter on any tick requires its cooldown to be 29 and its state
  \<open>Attacking\<close> after its update. And while the cooldown, as the attack test reads it, is
  not 0, the attack key has no effect at all: the per-fighter update gives the same
  result with the key held as with the key released.
\<close>

theorem C1_one_hit_per_activation:
  assumes "gameState w = Playing" and "fighterAt i w = Some f" and "activates keys f"
    and "length ks \<le> 29"
  shows "count_list (snd (tick keys now w)) i = 0 \<and>
         callsBy i (k # ks) (updateGame keys now w) =
           count_list (snd (tick (fst k) (snd k) (updateGame keys now w))) i \<and>
         callsBy i ((keys, now) # k # ks) w \<le> 1 \<and>
         (i \<in> set (snd (tick keys' now' w')) \<longrightarrow>
            (\<exists>g. fighterAt i w' = Some g \<and>
                  attackCooldown (fst (updateFighter keys' now' g)) = 29 \<and>
                  state (fst (updateFighter keys' now' g)) = Attacking)) \<and>
         (attackCooldown (preInput g') \<noteq> 0 \<longrightarrow>
            updateFighter (insert (attackKey (controlsOf g')) keys') now' g' =
            updateFighter (keys' - {attackKey (controlsOf g')}) now' g' \<and>
            attackCooldown (fst (updateFighter (insert (attackKey (controlsOf g')) keys') now' g')) =
              attackCooldown (preInput g'))"
proof -
  let ?w1 = "updateGame keys now w"
  have first: "count_list (snd (tick keys now w)) i = 0"
  proof (rule ccontr)
    assume "count_list (snd (tick keys now w)) i \<noteq> 0"
    then have "i \<in> set (snd (tick keys now w))"
      by (simp add: count_list_0_iff)
    then have "attackCooldown (fst (updateFighter keys now f)) = 29"
      using tick_calls_gate [of i keys now w] assms(2) by auto
    then show False
      using assms(3) by (simp add: updateFighter_attackCooldown)
  qed
  obtain g where g: "fighterAt i ?w1 = Some g" and cg: "attackCooldown g = 30"
    using fighterAt_tick_playing [OF assms(1,2), of keys now] assms(3)
    by (auto simp add: updateFighter_attackCooldown)
  have later: "callsBy i ks (updateGame (fst k) (snd k) ?w1) = 0"
  proof (cases "gameState ?w1 = Playing")
    case False
    then show ?thesis by (simp add: fighterAt_tick_stopped stopped_run)
  next
    case True
    have na: "\<not> activates (fst k) g"
      using cg by (simp add: activates_def)
    obtain h where h: "fighterAt i (updateGame (fst k) (snd k) ?w1) = Some h"
      and ch: "attackCooldown h = 29"
      using fighterAt_tick_playing [OF True g, of "fst k" "snd k"] na cg
      by (auto simp add: updateFighter_attackCooldown)
    show ?thesis
      using quiet_run [OF h] ch assms(4) by simp
  qed
  have second: "callsBy i (k # ks) ?w1 = count_list (snd (tick (fst k) (snd k) ?w1)) i"
    using later by simp
  have total: "callsBy i ((keys, now) # k # ks) w \<le> 1"
    using first later tick_calls_count [of "fst k" "snd k" ?w1 i] by simp
  have gate: "i \<in> set (snd (tick keys' now' w')) \<longrightarrow>
      (\<exists>g. fighterAt i w' = Some g \<and>
            attackCooldown (fst (updateFighter keys' now' g)) = 29 \<and>
            state (fst (updateFighter keys' now' g)) = Attacking)"
    using tick_calls_gate [of i keys' now' w'] by blast
  have ignored: "attackCooldown (preInput g') \<noteq> 0 \<longrightarrow>
      updateFighter (insert (attackKey (controlsOf g')) keys') now' g' =
      updateFighter (keys' - {attackKey (controlsOf g')}) now' g' \<and>
      attackCooldown (fst (updateFighter (insert (attackKey (controlsOf g')) keys') now' g')) =
        attackCooldown (preInput g')"
  proof
    assume c: "attackCooldown (preInput g') \<noteq> 0"
    have "updateFighter (insert (attackKey (controlsOf g')) (keys' - {attackKey (controlsOf g')})) now' g' =
          updateFighter (keys' - {attackKey (controlsOf g')}) now' g'"
      using c by (rule updateFighter_attack_key_cooling)
    moreover have "insert (attackKey (controlsOf g')) (keys' - {attackKey (controlsOf g')}) =
        insert (attackKey (controlsOf g')) keys'"
      by blast
    moreover have "attackCooldown (fst (updateFighter (insert (attackKey (controlsOf g')) keys') now' g')) =
        attackCooldown (preInput g')"
      using c by (simp add: updateFighter_attackCooldown activates_def del: preInput_fields)
    ultimately show "updateFighter (insert (attackKey (controlsOf g')) keys') now' g' =
        updateFighter (keys' - {attackKey (controlsOf g')}) now' g' \<and>
        attackCooldown (fst (updateFighter (insert (attackKey (controlsOf g')) keys') now' g')) =
          attackCooldown (preInput g')"
      by (simp del: preInput_fields)
  qed
  show ?thesis
    using first second total gate ignored by blast
qed

subsection \<open>A melee hit, tick by tick\<close>

lemma applyPhysics_ground:
  "velocityY (applyPhysics f) =
     (if y f + (if isGrounded f then velocityY f else velocityY f + GRAVITY)
           \<ge> GROUND_Y - height f
      then 0 else (if isGrounded f then velocityY f else velocityY f + GRAVITY))"
  "isGrounded (applyPhysics f) =
     (y f + (if isGrounded f then velocityY f else velocityY f + GRAVITY)
           \<ge> GROUND_Y - height f \<or> isGrounded f)"
  by (simp_all add: applyPhysics_def Let_def)

lemmas evalFighter =
  updateFighter_fst handleInput_fst applyPhysics_changes applyPhysics_ground blockStep_state
  specialStep_changes attackStep_changes jumpStep_changes moveStep_changes
  friction_velocityX friction_state preInput_state
  CANVAS_WIDTH_def GROUND_Y_def GRAVITY_def

lemma scenario_attack_then_hit:
  "snd (tick {''f''} 1
      ((startGame initialWorld)\<lparr> fighters := [fighter1_init, fighter2_init\<lparr> x := 250 \<rparr>] \<rparr>)) = [] \<and>
   snd (tick {} 2 (updateGame {''f''} 1
      ((startGame initialWorld)\<lparr> fighters := [fighter1_init, fighter2_init\<lparr> x := 250 \<rparr>] \<rparr>))) = [1] \<and>
   map health (fighters (updateGame {} 2 (updateGame {''f''} 1
      ((startGame initialWorld)\<lparr> fighters := [fighter1_init, fighter2_init\<lparr> x := 250 \<rparr>] \<rparr>)))) =
     [100, 85]"
proof -
  let ?w = "(startGame initialWorld)\<lparr> fighters := [fighter1_init, fighter2_init\<lparr> x := 250 \<rparr>] \<rparr>"
  define u1 where "u1 = fst (updateFighter {''f''} 1 fighter1_init)"
  define u2 where "u2 = fst (updateFighter {''f''} 1 (fighter2_init\<lparr> x := 250 \<rparr>))"
  define v1 where "v1 = fst (updateFighter {} 2 u1)"
  define v2 where "v2 = fst (updateFighter {} 2 u2)"
  have p: "gameState ?w = Playing"
    and fs: "fighters ?w = [fighter1_init, fighter2_init\<lparr> x := 250 \<rparr>]"
    by (simp_all add: startGame_def initializeFighters_def)
  have u1: "state u1 = Attacking" "attackCooldown u1 = 30" "x u1 = 200" "y u1 = 420"
      "width u1 = 60" "height u1 = 80" "facing u1 = Right" "hitStun u1 = 0" "blockStun u1 = 0"
      "fid u1 = 1" "velocityX u1 = 0" "velocityY u1 = 0" "isGrounded u1" "health u1 = 100"
    unfolding u1_def by (simp_all add: evalFighter fighter1_init_def)
  have u2: "state u2 = Idle" "attackCooldown u2 = 0" "x u2 = 250" "y u2 = 420"
      "width u2 = 60" "height u2 = 80" "facing u2 = Left" "hitStun u2 = 0" "blockStun u2 = 0"
      "fid u2 = 2" "velocityX u2 = 0" "velocityY u2 = 0" "isGrounded u2" "health u2 = 100"
    unfolding u2_def by (simp_all add: evalFighter fighter2_init_def)
  have m1: "\<not> attackLands u1 u2" and m2: "\<not> attackLands u2 u1"
    by (simp_all add: attackLands_def u1 u2)
  have t1: "snd (tick {''f''} 1 ?w) = []" and w1: "fighters (updateGame {''f''} 1 ?w) = [u1, u2]"
    and p1: "gameState (updateGame {''f''} 1 ?w) = Playing"
    unfolding updateGame_def tick_playing [OF p] fs updateFighters_two fst_conv snd_conv
      meleeStep_two u1_def [symmetric] u2_def [symmetric] exchange_miss [OF m1]
      exchange_miss [OF m2]
    by (simp_all add: startGame_def initializeFighters_def)
  have v1: "state v1 = Attacking" "attackCooldown v1 = 29" "x v1 = 200" "y v1 = 420"
      "width v1 = 60" "height v1 = 80" "facing v1 = Right" "health v1 = 100"
    unfolding v1_def by (simp_all add: evalFighter u1)
  have v2: "state v2 = Idle" "x v2 = 250" "y v2 = 420"
      "width v2 = 60" "height v2 = 80" "facing v2 = Left" "health v2 = 100"
    unfolding v2_def by (simp_all add: evalFighter u2)
  have l1: "attackLands v1 v2"
    by (simp add: attackLands_def checkCollision_def attackRange_def fighterRect_def
        js_lt_def js_gt_def js_add_def v1 v2)
  have nb: "\<not> (state v2 = Blocking \<and> facingOpposed v1 v2)"
    by (simp add: v2)
  have l2: "\<not> attackLands (fst (snd (handleAttack v1 v2 w'))) (fst (handleAttack v1 v2 w'))" for w'
    by (simp add: attackLands_def handleAttack_hit [OF nb])
  have t2: "snd (tick {} 2 (updateGame {''f''} 1 ?w)) = [1]"
    and h2: "map health (fighters (updateGame {} 2 (updateGame {''f''} 1 ?w))) = [100, 85]"
    unfolding updateGame_def [of "{}"] tick_playing [OF p1] w1 updateFighters_two fst_conv snd_conv
      meleeStep_two v1_def [symmetric] v2_def [symmetric] exchange_lands [OF l1]
      exchange_miss [OF l2]
    by (simp_all add: handleAttack_hit [OF nb] v1 v2 ATTACK_DAMAGE_def)
  show ?thesis
    using t1 t2 h2 by simp
qed
theorem C1_witness:
  "count_list (snd (tick {''f''} 1
      ((startGame initialWorld)\<lparr> fighters := [fighter1_init, fighter2_init\<lparr> x := 250 \<rparr>] \<rparr>))) 1 = 0 \<and>
   callsBy 1 [({}, 2), ({''f''}, 3), ({''f''}, 4)] (updateGame {''f''} 1
      ((startGame initialWorld)\<lparr> fighters := [fighter1_init, fighter2_init\<lparr> x := 250 \<rparr>] \<rparr>)) = 1 \<and>
   callsBy 1 [({''f''}, 1), ({}, 2), ({''f''}, 3), ({''f''}, 4)]
      ((startGame initialWorld)\<lparr> fighters := [fighter1_init, fighter2_init\<lparr> x := 250 \<rparr>] \<rparr>) \<le> 1 \<and>
   updateFighter (insert ''f'' {''q''}) 5 (fighter1_init\<lparr> attackCooldown := 20 \<rparr>) =
     updateFighter ({''q''} - {''f''}) 5 (fighter1_init\<lparr> attackCooldown := 20 \<rparr>)"
proof -
  let ?w = "(startGame initialWorld)\<lparr> fighters := [fighter1_init, fighter2_init\<lparr> x := 250 \<rparr>] \<rparr>"
  let ?g = "fighter1_init\<lparr> attackCooldown := 20 \<rparr>"
  have p: "gameState ?w = Playing"
    by (simp add: startGame_def initializeFighters_def)
  have at: "fighterAt 1 ?w = Some fighter1_init"
    by (simp add: fighterAt_def startGame_def initializeFighters_def)
  have act: "activates {''f''} fighter1_init"
    by (simp add: activates_def fighter1_init_def)
  have len: "length [({''f''}, 3::int), ({''f''}, 4)] \<le> 29"
    by simp
  have cool: "attackCooldown (preInput ?g) \<noteq> 0"
    by simp
  have key: "attackKey (controlsOf ?g) = ''f''"
    by (simp add: fighter1_init_def)
  note main = C1_one_hit_per_activation [OF p at act len, of 1 "({}, 2)" "{''q''}" 5 ?w ?g]
  have hit: "snd (tick {} 2 (updateGame {''f''} 1 ?w)) = [1]"
    using scenario_attack_then_hit by blast
  show ?thesis
    using main cool hit unfolding key by simp
qed

subsection \<open>Block together with attack or special\<close>

lemma handleInput_attacking:
  assumes "state (fst (handleInput keys now f)) = Attacking"
  shows "state f = Attacking \<or> (attackKey (controlsOf f) \<in> keys \<and> attackCooldown f = 0)"
  using assms
  by (simp add: handleInput_fst blockStep_state specialStep_changes attackStep_changes
      jumpStep_changes moveStep_changes friction_state split: if_splits)

lemma updateFighter_attacking:
  assumes "state (fst (updateFighter keys now f)) = Attacking"
  shows "state f = Attacking \<or> activates keys f"
proof (cases "hitStun (preInput f) = 0 \<and> blockStun (preInput f) = 0")
  case True
  then have "state (fst (handleInput keys now (preInput f))) = Attacking"
    using assms by (simp add: updateFighter_fst applyPhysics_changes del: preInput_fields
        split: if_splits)
  then have "state (preInput f) = Attacking \<or>
      (attackKey (controlsOf (preInput f)) \<in> keys \<and> attackCooldown (preInput f) = 0)"
    by (rule handleInput_attacking)
  then show ?thesis
    using True by (auto simp add: activates_def preInput_state simp del: preInput_fields
        split: if_splits)
next
  case False
  then have "state (preInput f) = Attacking"
    using assms by (auto simp add: updateFighter_fst applyPhysics_changes
        simp del: preInput_fields split: if_splits)
  then show ?thesis
    by (simp add: preInput_state del: preInput_fields split: if_splits)
qed

lemma updateFighter_blocking:
  assumes "hitStun (preInput f) = 0" and "blockStun (preInput f) = 0"
    and "blockKey (controlsOf f) \<in> keys"
  shows "state (fst (updateFighter keys now f)) = Blocking"
  using assms
  by (simp add: updateFighter_fst handleInput_fst applyPhysics_changes blockStep_state
      del: preInput_fields)

lemma not_attacking_run:
  assumes "fighterAt i w = Some g" and "attackCooldown g = 30" and "state g \<noteq> Attacking"
    and "length ks \<le> 30"
  shows "callsBy i ks w = 0"
proof (cases ks)
  case Nil
  then show ?thesis by simp
next
  case (Cons k ks')
  show ?thesis
  proof (cases "gameState w = Playing")
    case False
    then show ?thesis by (rule stopped_run)
  next
    case True
    have na: "\<not> activates (fst k) g"
      using assms(2) by (simp add: activates_def)
    have "state (fst (updateFighter (fst k) (snd k) g)) \<noteq> Attacking"
      using updateFighter_attacking [of "fst k" "snd k" g] na assms(3) by blast
    then have "i \<notin> set (snd (tick (fst k) (snd k) w))"
      using tick_calls_gate [of i "fst k" "snd k" w] assms(1) by auto
    then have now0: "count_list (snd (tick (fst k) (snd k) w)) i = 0"
      by (simp add: count_list_0_iff)
    obtain h where h: "fighterAt i (updateGame (fst k) (snd k) w) = Some h"
      and ch: "attackCooldown h = 29"
      using fighterAt_tick_playing [OF True assms(1), of "fst k" "snd k"] na assms(2)
      by (auto simp add: updateFighter_attackCooldown)
    have "callsBy i ks' (updateGame (fst k) (snd k) w) = 0"
      using quiet_run [OF h] ch assms(4) Cons by simp
    then show ?thesis
      using now0 Cons by simp
  qed
qed

text \<open>
  C9. Take a fighter past the input gate that holds its block key. Its state after the
  per-fighter update is \<open>Blocking\<close> (the block test is the last to write the state).
  If it also holds the attack key with \<open>attackCooldown = 0\<close>, the cooldown is set to 30
  all the same, and this activation never reaches \<^verbatim>\<open>handleAttack\<close>: in the run of the
  game from that tick on, through the 30 ticks that follow, there is no call for that
  fighter. If it also holds the special key with at least 30 energy and
  \<open>specialCooldown = 0\<close>, the 30 are deducted, \<open>specialCooldown\<close> is set to 60 and one
  projectile of the fighter is spawned. The cooldowns and the energy are the values
  the tests read, after the timer decrement and the regeneration of the tick.
\<close>

theorem C9_block_keeps_side_effects:
  assumes "hitStun (preInput f) = 0" and "blockStun (preInput f) = 0"
    and "blockKey (controlsOf f) \<in> keys"
  shows "state (fst (updateFighter keys now f)) = Blocking \<and>
         (attackKey (controlsOf f) \<in> keys \<and> attackCooldown (preInput f) = 0 \<longrightarrow>
            attackCooldown (fst (updateFighter keys now f)) = 30 \<and>
            (gameState w = Playing \<and> fighterAt i w = Some f \<and> length ks \<le> 30 \<longrightarrow>
               callsBy i ((keys, now) # ks) w = 0)) \<and>
         (specialKey (controlsOf f) \<in> keys \<and> energy (preInput f) \<ge> 30 \<and>
          specialCooldown (preInput f) = 0 \<longrightarrow>
            energy (fst (updateFighter keys now f)) = energy (preInput f) - 30 \<and>
            specialCooldown (fst (updateFighter keys now f)) = 60 \<and>
            (\<exists>p. snd (updateFighter keys now f) = [p] \<and> p_owner p = fid f \<and>
                  p_type p = specialType (controlsOf f) \<and> p_damage p = 25))"
proof -
  have blocking: "state (fst (updateFighter keys now f)) = Blocking"
    using assms by (rule updateFighter_blocking)
  have attack: "attackCooldown (fst (updateFighter keys now f)) = 30 \<and>
      (gameState w = Playing \<and> fighterAt i w = Some f \<and> length ks \<le> 30 \<longrightarrow>
         callsBy i ((keys, now) # ks) w = 0)"
    if a: "attackKey (controlsOf f) \<in> keys \<and> attackCooldown (preInput f) = 0"
  proof -
    have act: "activates keys f"
      using assms(1,2) a by (simp add: activates_def del: preInput_fields)
    then have c30: "attackCooldown (fst (updateFighter keys now f)) = 30"
      by (simp add: updateFighter_attackCooldown)
    have "callsBy i ((keys, now) # ks) w = 0"
      if p: "gameState w = Playing" and at: "fighterAt i w = Some f" and len: "length ks \<le> 30"
    proof -
      have "i \<notin> set (snd (tick keys now w))"
        using tick_calls_gate [of i keys now w] at c30 by auto
      then have now0: "count_list (snd (tick keys now w)) i = 0"
        by (simp add: count_list_0_iff)
      obtain g where g: "fighterAt i (updateGame keys now w) = Some g"
        and cg: "attackCooldown g = 30" and sg: "state g \<noteq> Attacking"
        using fighterAt_tick_playing [OF p at, of keys now] c30 blocking by auto
      show ?thesis
        using now0 not_attacking_run [OF g cg sg len] by simp
    qed
    then show ?thesis
      using c30 by blast
  qed
  have special: "energy (fst (updateFighter keys now f)) = energy (preInput f) - 30 \<and>
      specialCooldown (fst (updateFighter keys now f)) = 60 \<and>
      (\<exists>p. snd (updateFighter keys now f) = [p] \<and> p_owner p = fid f \<and>
            p_type p = specialType (controlsOf f) \<and> p_damage p = 25)"
    if s: "specialKey (controlsOf f) \<in> keys \<and> energy (preInput f) \<ge> 30 \<and>
           specialCooldown (preInput f) = 0"
    using assms(1,2) s
    by (simp add: updateFighter_fst updateFighter_snd handleInput_fst handleInput_snd
        specialStep_changes createProjectile_def SPECIAL_DAMAGE_def del: preInput_fields)
       simp
  show ?thesis
    using blocking attack special by blast
qed
theorem C9_witness:
  "state (fst (updateFighter {''f'', ''g'', ''s''} 1 fighter1_init)) = Blocking \<and>
   attackCooldown (fst (updateFighter {''f'', ''g'', ''s''} 1 fighter1_init)) = 30 \<and>
   callsBy 1 [({''f'', ''g'', ''s''}, 1), ({}, 2), ({}, 3)]
      ((startGame initialWorld)\<lparr> fighters := [fighter1_init, fighter2_init\<lparr> x := 250 \<rparr>] \<rparr>) = 0 \<and>
   energy (fst (updateFighter {''f'', ''g'', ''s''} 1 fighter1_init)) = 70 \<and>
   specialCooldown (fst (updateFighter {''f'', ''g'', ''s''} 1 fighter1_init)) = 60 \<and>
   length (snd (updateFighter {''f'', ''g'', ''s''} 1 fighter1_init)) = 1"
proof -
  let ?w = "(startGame initialWorld)\<lparr> fighters := [fighter1_init, fighter2_init\<lparr> x := 250 \<rparr>] \<rparr>"
  let ?K = "{''f'', ''g'', ''s''}"
  have gate: "hitStun (preInput fighter1_init) = 0" "blockStun (preInput fighter1_init) = 0"
    by (simp_all add: fighter1_init_def)
  have keys: "blockKey (controlsOf fighter1_init) \<in> ?K"
      "attackKey (controlsOf fighter1_init) \<in> ?K" "specialKey (controlsOf fighter1_init) \<in> ?K"
    by (simp_all add: fighter1_init_def)
  have vals: "attackCooldown (preInput fighter1_init) = 0" "energy (preInput fighter1_init) = 100"
      "specialCooldown (preInput fighter1_init) = 0"
    by (simp_all add: fighter1_init_def)
  have p: "gameState ?w = Playing"
    by (simp add: startGame_def initializeFighters_def)
  have at: "fighterAt 1 ?w = Some fighter1_init"
    by (simp add: fighterAt_def startGame_def initializeFighters_def)
  have len: "length [({}, 2::int), ({}, 3)] \<le> 30"
    by simp
  note main = C9_block_keeps_side_effects [OF gate keys(1), of 1 ?w 1 "[({}, 2), ({}, 3)]"]
  show ?thesis
    using main keys(2,3) vals p at len by (auto simp del: preInput_fields)
qed

subsection \<open>A kill ends the round\<close>

lemma exchange_attacker_health:
  "health (fst (exchange i a d w)) = health a"
  by (simp add: exchange_def case_prod_beta handleAttack_health)

lemma exchange_lowered:
  assumes "health (fst (snd (exchange i a d w))) < health d"
  shows "exchange i a d w =
     (a\<lparr> combo := combo a + 1 \<rparr>,
      d\<lparr> health := max 0 (health d - ATTACK_DAMAGE), hitStun := 20, state := Hit,
         velocityX := (if facing a = Right then 3 else - 3) \<rparr>,
      (if max 0 (health d - ATTACK_DAMAGE) \<le> 0
       then w\<lparr> winner := Some (name a), gameState := GameOver,
               scores := (if fid a = 1
                          then (scores w)\<lparr> player1 := player1 (scores w) + 1 \<rparr>
                          else (scores w)\<lparr> player2 := player2 (scores w) + 1 \<rparr>) \<rparr>
       else w),
      [i])"
proof -
  have lands: "attackLands a d"
    using assms by (cases "attackLands a d") (simp_all add: exchange_miss)
  have nb: "\<not> (state d = Blocking \<and> facingOpposed a d)"
    using assms lands by (auto simp add: exchange_lands handleAttack_health)
  show ?thesis
    by (simp add: exchange_lands [OF lands] handleAttack_hit [OF nb])
qed

text \<open>
  C6. Whenever a tick lowers the health of a fighter to 0, the round ends on that tick:
  the game phase is \<open>GameOver\<close>, the winner is the name of the other fighter, and the
  score of the other fighter's player (player 1 for the fighter with id 1, player 2
  otherwise) is one higher, the other score unchanged. This holds whatever lowered the
  health; in a tick only \<^verbatim>\<open>handleAttack\<close> does.
\<close>

theorem C6_kill_ends_round:
  assumes "fighters w = [f1, f2]"
    and "map health (fighters (updateGame keys now w)) = [h1, h2]"
  shows "(h2 < health f2 \<and> h2 \<le> 0 \<longrightarrow>
            gameState (updateGame keys now w) = GameOver \<and>
            winner (updateGame keys now w) = Some (name f1) \<and>
            scores (updateGame keys now w) =
              (if fid f1 = 1 then (scores w)\<lparr> player1 := player1 (scores w) + 1 \<rparr>
               else (scores w)\<lparr> player2 := player2 (scores w) + 1 \<rparr>)) \<and>
         (h1 < health f1 \<and> h1 \<le> 0 \<longrightarrow>
            gameState (updateGame keys now w) = GameOver \<and>
            winner (updateGame keys now w) = Some (name f2) \<and>
            scores (updateGame keys now w) =
              (if fid f2 = 1 then (scores w)\<lparr> player1 := player1 (scores w) + 1 \<rparr>
               else (scores w)\<lparr> player2 := player2 (scores w) + 1 \<rparr>))"
proof (cases "gameState w = Playing")
  case False
  then have "updateGame keys now w = w"
    by (rule fighterAt_tick_stopped)
  then show ?thesis
    using assms by simp
next
  case True
  define u1 where "u1 = fst (updateFighter keys now f1)"
  define u2 where "u2 = fst (updateFighter keys now f2)"
  define e1 where "e1 = exchange 1 u1 u2 w"
  define e2 where "e2 = exchange 2 (fst (snd e1)) (fst e1) (fst (snd (snd e1)))"
  have u: "health u1 = health f1" "health u2 = health f2" "name u1 = name f1"
      "name u2 = name f2" "fid u1 = fid f1" "fid u2 = fid f2"
    by (simp_all add: u1_def u2_def updateFighter_fst handleInput_fst)
  have after: "fighters (updateGame keys now w) = [fst (snd e2), fst e2]"
    and gs: "gameState (updateGame keys now w) = gameState (fst (snd (snd e2)))"
    and wn: "winner (updateGame keys now w) = winner (fst (snd (snd e2)))"
    and sc: "scores (updateGame keys now w) = scores (fst (snd (snd e2)))"
    unfolding updateGame_def tick_playing [OF True] assms(1) updateFighters_two fst_conv
      meleeStep_two
    by (simp_all add: e1_def e2_def u1_def u2_def)
  have h1: "h1 = health (fst (snd e2))" and h2: "h2 = health (fst e2)"
    using assms(2) by (simp_all add: after)
  have second: "gameState (fst (snd (snd e2))) = GameOver \<and>
      winner (fst (snd (snd e2))) = Some (name f1) \<and>
      scores (fst (snd (snd e2))) =
        (if fid f1 = 1 then (scores w)\<lparr> player1 := player1 (scores w) + 1 \<rparr>
         else (scores w)\<lparr> player2 := player2 (scores w) + 1 \<rparr>)"
    if low: "h2 < health f2" "h2 \<le> 0"
  proof -
    have "health (fst (snd e1)) < health u2"
      using low(1) by (simp add: h2 e2_def exchange_attacker_health u)
    then have e1: "e1 =
       (u1\<lparr> combo := combo u1 + 1 \<rparr>,
        u2\<lparr> health := max 0 (health u2 - ATTACK_DAMAGE), hitStun := 20, state := Hit,
           velocityX := (if facing u1 = Right then 3 else - 3) \<rparr>,
        (if max 0 (health u2 - ATTACK_DAMAGE) \<le> 0
         then w\<lparr> winner := Some (name u1), gameState := GameOver,
                 scores := (if fid u1 = 1
                            then (scores w)\<lparr> player1 := player1 (scores w) + 1 \<rparr>
                            else (scores w)\<lparr> player2 := player2 (scores w) + 1 \<rparr>) \<rparr>
         else w),
        [1])"
      unfolding e1_def by (rule exchange_lowered)
    have miss: "\<not> attackLands (fst (snd e1)) (fst e1)"
      by (simp add: e1 attackLands_def)
    have e2: "e2 = (fst (snd e1), fst e1, fst (snd (snd e1)), [])"
      unfolding e2_def by (rule exchange_miss [OF miss])
    have "max 0 (health u2 - ATTACK_DAMAGE) \<le> 0"
      using low(2) by (simp add: h2 e2 e1)
    then show ?thesis
      by (simp add: e2 e1 u)
  qed
  have first: "gameState (fst (snd (snd e2))) = GameOver \<and>
      winner (fst (snd (snd e2))) = Some (name f2) \<and>
      scores (fst (snd (snd e2))) =
        (if fid f2 = 1 then (scores w)\<lparr> player1 := player1 (scores w) + 1 \<rparr>
         else (scores w)\<lparr> player2 := player2 (scores w) + 1 \<rparr>)"
    if low: "h1 < health f1" "h1 \<le> 0"
  proof -
    have a1: "health (fst e1) = health f1"
      by (simp add: e1_def exchange_attacker_health u)
    have lowered: "health (fst (snd e2)) < health (fst e1)"
      using low(1) by (simp add: h1 a1)
    have e2: "e2 =
       ((fst (snd e1))\<lparr> combo := combo (fst (snd e1)) + 1 \<rparr>,
        (fst e1)\<lparr> health := max 0 (health (fst e1) - ATTACK_DAMAGE), hitStun := 20,
                  state := Hit,
                  velocityX := (if facing (fst (snd e1)) = Right then 3 else - 3) \<rparr>,
        (if max 0 (health (fst e1) - ATTACK_DAMAGE) \<le> 0
         then (fst (snd (snd e1)))\<lparr> winner := Some (name (fst (snd e1))), gameState := GameOver,
                 scores := (if fid (fst (snd e1)) = 1
                            then (scores (fst (snd (snd e1))))
                                   \<lparr> player1 := player1 (scores (fst (snd (snd e1)))) + 1 \<rparr>
                            else (scores (fst (snd (snd e1))))
                                   \<lparr> player2 := player2 (scores (fst (snd (snd e1)))) + 1 \<rparr>) \<rparr>
         else fst (snd (snd e1))),
        [2])"
      using lowered unfolding e2_def by (rule exchange_lowered)
    have "attackLands (fst (snd e1)) (fst e1)"
      using lowered unfolding e2_def
      by (cases "attackLands (fst (snd e1)) (fst e1)") (simp_all add: exchange_miss)
    then have "state (fst (snd e1)) = Attacking"
      by (simp add: attackLands_def)
    then have e1: "e1 = (u1, u2, w, [])"
      unfolding e1_def by (rule exchange_defender_attacking)
    have "max 0 (health u1 - ATTACK_DAMAGE) \<le> 0"
      using low(2) by (simp add: h1 e2 e1)
    then show ?thesis
      by (simp add: e2 e1 u)
  qed
  show ?thesis
    unfolding gs wn sc using first second by blast
qed

theorem C6_witness:
  "map health (fighters (updateGame {} 9
      ((startGame initialWorld)\<lparr> fighters :=
         [fighter1_init\<lparr> state := Attacking, attackCooldown := 30 \<rparr>,
          fighter2_init\<lparr> x := 250, health := 10 \<rparr>] \<rparr>))) = [100, 0] \<and>
   gameState (updateGame {} 9
      ((startGame initialWorld)\<lparr> fighters :=
         [fighter1_init\<lparr> state := Attacking, attackCooldown := 30 \<rparr>,
          fighter2_init\<lparr> x := 250, health := 10 \<rparr>] \<rparr>)) = GameOver \<and>
   winner (updateGame {} 9
      ((startGame initialWorld)\<lparr> fighters :=
         [fighter1_init\<lparr> state := Attacking, attackCooldown := 30 \<rparr>,
          fighter2_init\<lparr> x := 250, health := 10 \<rparr>] \<rparr>)) = Some ''Sub-Zero'' \<and>
   scores (updateGame {} 9
      ((startGame initialWorld)\<lparr> fighters :=
         [fighter1_init\<lparr> state := Attacking, attackCooldown := 30 \<rparr>,
          fighter2_init\<lparr> x := 250, health := 10 \<rparr>] \<rparr>)) = \<lparr> player1 = 1, player2 = 0 \<rparr>"
proof -
  let ?a = "fighter1_init\<lparr> state := Attacking, attackCooldown := 30 \<rparr>"
  let ?d = "fighter2_init\<lparr> x := 250, health := 10 \<rparr>"
  let ?w = "(startGame initialWorld)\<lparr> fighters := [?a, ?d] \<rparr>"
  define v1 where "v1 = fst (updateFighter {} 9 ?a)"
  define v2 where "v2 = fst (updateFighter {} 9 ?d)"
  have p: "gameState ?w = Playing" and fs: "fighters ?w = [?a, ?d]"
    and sc0: "scores ?w = \<lparr> player1 = 0, player2 = 0 \<rparr>"
    by (simp_all add: startGame_def initializeFighters_def initialWorld_def)
  have v1: "state v1 = Attacking" "attackCooldown v1 = 29" "x v1 = 200" "y v1 = 420"
      "width v1 = 60" "height v1 = 80" "facing v1 = Right" "health v1 = 100"
    unfolding v1_def by (simp_all add: evalFighter fighter1_init_def)
  have v2: "state v2 = Idle" "x v2 = 250" "y v2 = 420"
      "width v2 = 60" "height v2 = 80" "facing v2 = Left" "health v2 = 10"
    unfolding v2_def by (simp_all add: evalFighter fighter2_init_def)
  have l1: "attackLands v1 v2"
    by (simp add: attackLands_def checkCollision_def attackRange_def fighterRect_def
        js_lt_def js_gt_def js_add_def v1 v2)
  have nb: "\<not> (state v2 = Blocking \<and> facingOpposed v1 v2)"
    by (simp add: v2)
  have l2: "\<not> attackLands (fst (snd (handleAttack v1 v2 w'))) (fst (handleAttack v1 v2 w'))" for w'
    by (simp add: attackLands_def handleAttack_hit [OF nb])
  have hs: "map health (fighters (updateGame {} 9 ?w)) = [100, 0]"
    unfolding updateGame_def tick_playing [OF p] fs updateFighters_two fst_conv snd_conv
      meleeStep_two v1_def [symmetric] v2_def [symmetric] exchange_lands [OF l1]
      exchange_miss [OF l2]
    by (simp add: handleAttack_hit [OF nb] v1 v2 ATTACK_DAMAGE_def)
  have low: "(0::real) < health ?d \<and> (0::real) \<le> 0"
    by simp
  have who: "name ?a = ''Sub-Zero''" "fid ?a = 1"
    by (simp_all add: fighter1_init_def)
  show ?thesis
    using C6_kill_ends_round [OF fs hs] low hs by (simp add: who sc0)
qed

end
